theory Spec2Isabelle
  imports Main "HOL-Library.AList" "HOL-Library.Sublist"
begin

section \<open>Python values and failures used by \<open>write_yaml\<close>\<close>

text \<open>
  The exceptions that \<open>write_yaml\<close> (mirage/yaml/write\_observationlist.py) can raise
  from its own statements.  \<open>NotImplementedError\<close> is raised explicitly for several
  instruments, \<open>ValueError\<close> explicitly by the length check; the others come from
  Python itself: \<open>len(None)\<close>, a missing dictionary key, an index out of range, and
  reading a local variable that no branch has bound.
\<close>

datatype error =
    NotImplementedError
  | ValueError
  | TypeError
  | KeyError
  | IndexError
  | UnboundLocalError

text \<open>
  Observation ids are whatever the APT reader stores under \<open>ObservationID\<close>; the
  function only compares them (\<open>==\<close>) and uses them as dictionary keys, and it looks
  groups up under Python integers.  Integers and strings are kept apart, as Python's
  equality keeps them.
\<close>

datatype obs_id = IdInt int | IdStr string

definition newline :: string where
  "newline = [CHR 0x0A]"

definition digit_char :: "nat \<Rightarrow> char" where
  "digit_char d = ''0123456789'' ! d"

text \<open>\<open>'{}'.format(n)\<close> for a non-negative integer: its decimal digits.\<close>

function str_of_nat :: "nat \<Rightarrow> string" where
  "str_of_nat n =
     (if n < 10 then [digit_char n]
      else str_of_nat (n div 10) @ [digit_char (n mod 10)])"
  by pat_completeness auto
termination
  by (relation "measure (\<lambda>n. n)") auto

declare str_of_nat.simps [simp del]

text \<open>\<open>xs[i]\<close> for a non-negative index: out of range raises.\<close>

definition py_index :: "'a list \<Rightarrow> nat \<Rightarrow> error + 'a" where
  "py_index xs i = (if i < length xs then Inr (xs ! i) else Inl IndexError)"

text \<open>
  A dictionary keyed by observation id, as an association list in insertion order:
  \<open>d[k] = v\<close> replaces the value of a key already present and appends a new key,
  \<open>d[k]\<close> raises for a missing key, \<open>len(d)\<close> counts the keys.
\<close>

type_synonym 'v dict = "(obs_id \<times> 'v) list"

definition dict_set :: "'v dict \<Rightarrow> obs_id \<Rightarrow> 'v \<Rightarrow> 'v dict" where
  "dict_set d k v = AList.update k v d"

definition dict_get :: "'v dict \<Rightarrow> obs_id \<Rightarrow> error + 'v" where
  "dict_get d k = (case map_of d k of None \<Rightarrow> Inl KeyError | Some v \<Rightarrow> Inr v)"

text \<open>\<open>len(set(xs))\<close>: the number of distinct elements.\<close>

definition len_set :: "'a list \<Rightarrow> nat" where
  "len_set xs = length (remdups xs)"

text \<open>
  \<open>np.unique(xs)\<close>: the distinct elements.  numpy also sorts them; the function reads
  only the length of the result and, when that length is at most one, its element 0,
  so the order is never observed.
\<close>

definition np_unique :: "'a list \<Rightarrow> 'a list" where
  "np_unique xs = remdups xs"

text \<open>\<open>np.array(xs)[mask]\<close> with a list of booleans as long as \<open>xs\<close>.\<close>

definition mask_select :: "'a list \<Rightarrow> bool list \<Rightarrow> 'a list" where
  "mask_select xs bs = map fst (filter snd (zip xs bs))"

text \<open>Running a failing step over a list, stopping at the first exception.\<close>

fun traverse :: "('a \<Rightarrow> error + 'b) \<Rightarrow> 'a list \<Rightarrow> error + 'b list" where
  "traverse f [] = Inr []"
| "traverse f (x # xs) =
     (case f x of
        Inl e \<Rightarrow> Inl e
      | Inr y \<Rightarrow> (case traverse f xs of Inl e \<Rightarrow> Inl e | Inr ys \<Rightarrow> Inr (y # ys)))"

section \<open>Observation names\<close>

text \<open>\<open>sub in s\<close> on strings.\<close>

fun str_contains :: "string \<Rightarrow> string \<Rightarrow> bool" where
  "str_contains sub [] = (sub = [])"
| "str_contains sub (c # cs) = (prefix sub (c # cs) \<or> str_contains sub cs)"

text \<open>
  \<open>re.split(r' \(|\)', label)[0]\<close>: the text before the leftmost match of the
  pattern, which matches either a space followed by an opening parenthesis or a closing
  parenthesis; the whole label when there is no match.
\<close>

fun re_split_head :: "string \<Rightarrow> string" where
  "re_split_head [] = []"
| "re_split_head (c # cs) =
     (if prefix '' ('' (c # cs) \<or> c = CHR '')'' then [] else c # re_split_head cs)"

definition obs_name :: "string \<Rightarrow> string" where
  "obs_name label =
     (if str_contains '' ('' label \<and> str_contains '')'' label
      then re_split_head label else label)"

section \<open>Inputs\<close>

text \<open>
  What the two readers hand to \<open>write_yaml\<close>.  \<open>obs_results\<close> is the list of
  \<open>Observation\<close> elements found in the proposal tree, each with the text of its
  \<open>Instrument\<close> and \<open>Label\<close> children.  \<open>xml_table\<close> is the dictionary returned by
  \<open>ReadAPTXML.read_xml\<close>; its columns are equally long, one entry per exposure,
  and it is kept here as the list of its rows.
\<close>

record observation =
  obs_instrument :: string
  obs_label :: string

record exposure =
  Instrument :: string
  ShortFilter :: string
  LongFilter :: string
  PupilWheel :: string
  TileNumber :: string
  ObservationID :: obs_id

text \<open>\<open>catalog_files\<close> is documented as \<open>str or list(str)\<close>.\<close>

datatype catalog_arg = CatStr string | CatList "string list"

record call =
  obs_results :: "observation list"
  xml_table :: "exposure list"
  yaml_file :: string
  catalog_files :: catalog_arg
  ps_cat_sw :: "string list option"
  ps_cat_lw :: "string list option"

text \<open>
  What the function prints: the summary of the table (one event for the header line and
  the line of each column, all of which have the table's length), the note on an
  observation with several filters, the list of lengths printed before the
  \<open>ValueError\<close>, and the final message with the number of observations and the
  path written.
\<close>

datatype notice =
    Summary nat
  | MultipleFilters obs_id
  | ParamLengths "nat list"
  | Success nat string

section \<open>Selecting observations\<close>

definition supported_instruments :: "string list" where
  "supported_instruments = [''NIRCAM'', ''WFSC'', ''NIRISS'', ''FGS'']"

text \<open>
  The first loop of \<open>write_yaml\<close>: the observations of a supported instrument, each
  with its position \<open>i_obs\<close> in \<open>obs_results\<close>.  The lists \<open>observations\<close>,
  \<open>i_observations\<close> and \<open>obs_names\<close> are appended to together.
\<close>

definition selected :: "observation list \<Rightarrow> (nat \<times> observation) list" where
  "selected os =
     filter (\<lambda>(i_obs, o'). obs_instrument o' \<in> set supported_instruments) (enumerate 0 os)"

definition observations :: "observation list \<Rightarrow> observation list" where
  "observations os = map snd (selected os)"

definition i_observations :: "observation list \<Rightarrow> nat list" where
  "i_observations os = map fst (selected os)"

definition obs_names :: "observation list \<Rightarrow> string list" where
  "obs_names os = map (\<lambda>(i_obs, o'). obs_name (obs_label o')) (selected os)"

section \<open>Grouping filters by observation id\<close>

text \<open>
  The loop \<open>for i_obs_all in set(observation_ids)\<close>.  Python fixes no iteration order
  for a set, so the order is the argument \<open>ks\<close>: a list of the distinct ids
  (\<open>set_iteration\<close>).  Only the short-wavelength filters are tested for the note.
\<close>

definition set_iteration :: "obs_id list \<Rightarrow> obs_id list \<Rightarrow> bool" where
  "set_iteration ks observation_ids \<longleftrightarrow> distinct ks \<and> set ks = set observation_ids"

definition current_obs_indices :: "obs_id \<Rightarrow> obs_id list \<Rightarrow> bool list" where
  "current_obs_indices i_obs_all observation_ids = map (\<lambda>i. i = i_obs_all) observation_ids"

fun group_dichroic ::
  "obs_id list \<Rightarrow> obs_id list \<Rightarrow> string list \<Rightarrow> string list \<Rightarrow>
   notice list \<times> string list dict \<times> string list dict \<Rightarrow>
   notice list \<times> string list dict \<times> string list dict" where
  "group_dichroic [] observation_ids sw_filters_all lw_filters_all st = st"
| "group_dichroic (i_obs_all # ks) observation_ids sw_filters_all lw_filters_all
     (out, sw_filters, lw_filters) =
     (let cur = current_obs_indices i_obs_all observation_ids;
          out' = (if len_set (mask_select sw_filters_all cur) > 1
                  then out @ [MultipleFilters i_obs_all] else out)
      in group_dichroic ks observation_ids sw_filters_all lw_filters_all
           (out',
            dict_set sw_filters i_obs_all (mask_select sw_filters_all cur),
            dict_set lw_filters i_obs_all (mask_select lw_filters_all cur)))"

fun group_single ::
  "obs_id list \<Rightarrow> obs_id list \<Rightarrow> string list \<Rightarrow>
   notice list \<times> string list dict \<Rightarrow> notice list \<times> string list dict" where
  "group_single [] observation_ids filters_all st = st"
| "group_single (i_obs_all # ks) observation_ids filters_all (out, filters) =
     (let cur = current_obs_indices i_obs_all observation_ids;
          out' = (if len_set (mask_select filters_all cur) > 1
                  then out @ [MultipleFilters i_obs_all] else out)
      in group_single ks observation_ids filters_all
           (out', dict_set filters i_obs_all (mask_select filters_all cur)))"

section \<open>Dispatch on the instrument and the lengths to compare\<close>

text \<open>
  The local variables bound by the branch taken: the two filter dictionaries of the
  NIRCAM/WFSC branch, or the filter dictionary and the (possibly repeated) catalog list
  of the NIRISS branch.  No other instrument has a branch, so nothing is bound for it,
  \<open>all_param_lengths\<close> included.
\<close>

datatype family_locals =
    DichroicLocals "string list dict" "string list dict"
  | SingleLocals "string list dict" "string list"
  | NoLocals

definition catalog_list :: "catalog_arg \<Rightarrow> string list" where
  "catalog_list a = (case a of CatStr s \<Rightarrow> [s] | CatList l \<Rightarrow> l)"

text \<open>\<open>catalog_files*len(observations)\<close> when one catalog is given.\<close>

definition broadcast :: "string list \<Rightarrow> nat \<Rightarrow> string list" where
  "broadcast cats n = (if length cats = 1 then concat (replicate n cats) else cats)"

definition dispatch ::
  "obs_id list \<Rightarrow> call \<Rightarrow> notice list \<times> (error + family_locals \<times> nat list option)" where
  "dispatch ks c =
     (let os = obs_results c;
          tbl = xml_table c;
          used_instruments = np_unique (map Instrument tbl);
          out = [Summary (length tbl)];
          observation_ids = map ObservationID tbl
      in if length used_instruments > 1 then (out, Inl NotImplementedError)
         else (case py_index used_instruments 0 of
             Inl e \<Rightarrow> (out, Inl e)
           | Inr u \<Rightarrow>
               if u \<in> set [''NIRCAM'', ''WFSC''] then
                 (case group_dichroic ks observation_ids
                         (map ShortFilter tbl) (map LongFilter tbl) ([], [], []) of
                    (notes, sw_filters, lw_filters) \<Rightarrow>
                      (case (ps_cat_sw c, ps_cat_lw c) of
                         (Some sw, Some lw) \<Rightarrow>
                           (out @ notes,
                            Inr (DichroicLocals sw_filters lw_filters,
                                 Some [length sw, length lw, length sw_filters,
                                       length lw_filters, length (observations os),
                                       length (i_observations os), length (obs_names os)]))
                       | _ \<Rightarrow> (out @ notes, Inl TypeError)))
               else if u \<in> set [''NIRISS''] then
                 (case group_single ks observation_ids (map PupilWheel tbl) ([], []) of
                    (notes, filters) \<Rightarrow>
                      (let cats = broadcast (catalog_list (catalog_files c))
                                    (length (observations os))
                       in (out @ notes,
                           Inr (SingleLocals filters cats,
                                Some [length cats, length filters, length (observations os),
                                      length (i_observations os), length (obs_names os)]))))
               else (out, Inr (NoLocals, None))))"

text \<open>The check of lines 171 to 174, reading \<open>all_param_lengths\<close>.\<close>

definition check_lengths :: "nat list option \<Rightarrow> notice list \<times> (error + unit)" where
  "check_lengths all_param_lengths =
     (case all_param_lengths of
        None \<Rightarrow> ([], Inl UnboundLocalError)
      | Some ls \<Rightarrow>
          if len_set ls > 1 then ([ParamLengths ls], Inl ValueError) else ([], Inr ()))"

section \<open>Rendering\<close>

text \<open>A line \<open>"<indent><key>: {}\n".format(val)\<close>.\<close>

definition kv :: "string \<Rightarrow> string \<Rightarrow> string \<Rightarrow> string" where
  "kv ind key val = ind @ key @ '': '' @ val @ newline"

text \<open>The default values, the same in both branches apart from the background rates.\<close>

definition date :: string where "date = ''2019-07-04''"
definition PAV3 :: string where "PAV3 = ''0.''"
definition BackgroundRate_sw :: string where "BackgroundRate_sw = ''0.5''"
definition BackgroundRate_lw :: string where "BackgroundRate_lw = ''1.2''"
definition BackgroundRate :: string where "BackgroundRate = ''0.5''"

definition default_lines :: "string \<Rightarrow> string list" where
  "default_lines ind =
     [kv ind ''GalaxyCatalog'' ''None'',
      kv ind ''ExtendedCatalog'' ''None'',
      kv ind ''ExtendedScale'' ''1.0'',
      kv ind ''ExtendedCenter'' ''1024,1024'',
      kv ind ''MovingTargetList'' ''None'',
      kv ind ''MovingTargetSersic'' ''None'',
      kv ind ''MovingTargetExtended'' ''None'',
      kv ind ''MovingTargetConvolveExtended'' ''True'',
      kv ind ''MovingTargetToTrack'' ''None'']"

definition preamble :: "string list" where
  "preamble =
     [''# Observation list created by write_observationlist.py  in'' @ newline,
      ''# mirage/yaml. Note: all values except filters and'' @ newline,
      ''# observation names are default.'' @ newline @ newline]"

definition observation_line :: "nat \<Rightarrow> string" where
  "observation_line obs_number = ''Observation'' @ str_of_nat obs_number @ '':'' @ newline"

definition obs_header :: "nat \<Rightarrow> string \<Rightarrow> string list" where
  "obs_header obs_number name =
     [observation_line obs_number,
      ''  Name: '' @ [CHR 0x27] @ name @ [CHR 0x27] @ newline,
      kv ''  '' ''Date'' date,
      kv ''  '' ''PAV3'' PAV3]"

definition filter_config :: "nat \<Rightarrow> string \<Rightarrow> string \<Rightarrow> string \<Rightarrow> string \<Rightarrow> string list" where
  "filter_config i_filt sw_filt cat_sw lw_filt cat_lw =
     [''  FilterConfig'' @ str_of_nat (i_filt + 1) @ '':'' @ newline,
      ''    SW:'' @ newline,
      kv ''      '' ''Filter'' sw_filt,
      kv ''      '' ''PointSourceCatalog'' cat_sw]
     @ default_lines ''      '' @
     [kv ''      '' ''BackgroundRate'' BackgroundRate_sw,
      ''    LW:'' @ newline,
      kv ''      '' ''Filter'' lw_filt,
      kv ''      '' ''PointSourceCatalog'' cat_lw]
     @ default_lines ''      '' @
     [kv ''      '' ''BackgroundRate'' BackgroundRate_lw @ newline]"

definition single_filter :: "string \<Rightarrow> string \<Rightarrow> string list" where
  "single_filter filt cat =
     [kv ''  '' ''Filter'' filt,
      kv ''  '' ''PointSourceCatalog'' cat]
     @ default_lines ''  '' @
     [kv ''  '' ''BackgroundRate'' BackgroundRate]"

text \<open>\<open>ps_cat_sw[i_obs]\<close> on an argument that may still be \<open>None\<close>.\<close>

definition ps_cat_index :: "string list option \<Rightarrow> nat \<Rightarrow> error + string" where
  "ps_cat_index ps i = (case ps of None \<Rightarrow> Inl TypeError | Some l \<Rightarrow> py_index l i)"

text \<open>
  One pass of the loop over \<open>range(num_obs)\<close> in the NIRCAM/WFSC branch: the lines
  added for observation \<open>i_obs\<close>.  The groups are looked up under
  \<open>obs_number = i_observations[i_obs] + 1\<close>.
\<close>

definition dichroic_block ::
  "call \<Rightarrow> string list dict \<Rightarrow> string list dict \<Rightarrow> nat \<Rightarrow> error + string list" where
  "dichroic_block c sw_filters lw_filters i_obs =
     (case py_index (i_observations (obs_results c)) i_obs of
        Inl e \<Rightarrow> Inl e
      | Inr p \<Rightarrow>
     (let obs_number = p + 1 in
      case py_index (obs_names (obs_results c)) i_obs of
        Inl e \<Rightarrow> Inl e
      | Inr name \<Rightarrow>
     (case dict_get sw_filters (IdInt (int obs_number)) of
        Inl e \<Rightarrow> Inl e
      | Inr sws \<Rightarrow>
     (case dict_get lw_filters (IdInt (int obs_number)) of
        Inl e \<Rightarrow> Inl e
      | Inr lws \<Rightarrow>
     (case traverse
             (\<lambda>(i_filt, sw_filt, lw_filt).
                case ps_cat_index (ps_cat_sw c) i_obs of
                  Inl e \<Rightarrow> Inl e
                | Inr cat_sw \<Rightarrow>
                    (case ps_cat_index (ps_cat_lw c) i_obs of
                       Inl e \<Rightarrow> Inl e
                     | Inr cat_lw \<Rightarrow>
                         Inr (filter_config i_filt sw_filt cat_sw lw_filt cat_lw)))
             (enumerate 0 (zip sws lws)) of
        Inl e \<Rightarrow> Inl e
      | Inr cfgs \<Rightarrow> Inr (obs_header obs_number name @ concat cfgs))))))"

text \<open>
  The same pass in the NIRISS/FGS branch.  The group is looked up under \<open>i_obs\<close>
  itself, the position among the selected observations.
\<close>

definition single_block ::
  "call \<Rightarrow> string list dict \<Rightarrow> string list \<Rightarrow> nat \<Rightarrow> error + string list" where
  "single_block c filters cats i_obs =
     (case py_index (i_observations (obs_results c)) i_obs of
        Inl e \<Rightarrow> Inl e
      | Inr p \<Rightarrow>
     (let obs_number = p + 1 in
      case py_index (obs_names (obs_results c)) i_obs of
        Inl e \<Rightarrow> Inl e
      | Inr name \<Rightarrow>
     (case dict_get filters (IdInt (int i_obs)) of
        Inl e \<Rightarrow> Inl e
      | Inr fs \<Rightarrow>
     (case traverse
             (\<lambda>(i_filt, filt).
                case py_index cats i_obs of
                  Inl e \<Rightarrow> Inl e
                | Inr cat \<Rightarrow> Inr (single_filter filt cat))
             (enumerate 0 fs) of
        Inl e \<Rightarrow> Inl e
      | Inr flts \<Rightarrow> Inr (obs_header obs_number name @ concat flts)))))"

text \<open>
  The blocks of all selected observations, by the second test on the instrument
  (lines 180 and 222).  A branch reads the local variables of the matching first
  branch; \<open>FGS\<close> is accepted here although no first branch binds \<open>filters\<close> for it.
\<close>

definition render_blocks :: "call \<Rightarrow> string \<Rightarrow> family_locals \<Rightarrow> error + string list list" where
  "render_blocks c u locals =
     (let num_obs = length (observations (obs_results c)) in
      if u \<in> set [''NIRCAM'', ''WFSC''] then
        (case locals of
           DichroicLocals sw_filters lw_filters \<Rightarrow>
             traverse (dichroic_block c sw_filters lw_filters) [0..<num_obs]
         | _ \<Rightarrow> if num_obs = 0 then Inr [] else Inl UnboundLocalError)
      else if u \<in> set [''NIRISS'', ''FGS''] then
        (case locals of
           SingleLocals filters cats \<Rightarrow>
             traverse (single_block c filters cats) [0..<num_obs]
         | _ \<Rightarrow> if num_obs = 0 then Inr [] else Inl UnboundLocalError)
      else Inr [])"

section \<open>The conversion\<close>

text \<open>
  Everything up to the opening of the output file: what has been printed, and either
  the exception raised or the list \<open>write\<close> of lines.
\<close>

definition write_lines :: "obs_id list \<Rightarrow> call \<Rightarrow> notice list \<times> (error + string list)" where
  "write_lines ks c =
     (case dispatch ks c of
        (out, Inl e) \<Rightarrow> (out, Inl e)
      | (out, Inr (locals, all_param_lengths)) \<Rightarrow>
          (case check_lengths all_param_lengths of
             (out', Inl e) \<Rightarrow> (out @ out', Inl e)
           | (out', Inr _) \<Rightarrow>
               (case py_index (np_unique (map Instrument (xml_table c))) 0 of
                  Inl e \<Rightarrow> (out @ out', Inl e)
                | Inr u \<Rightarrow>
                    (case render_blocks c u locals of
                       Inl e \<Rightarrow> (out @ out', Inl e)
                     | Inr blocks \<Rightarrow> (out @ out', Inr (preamble @ concat blocks))))))"

text \<open>
  \<open>write_yaml\<close> on a file system that maps a path to the text of the file.  The file
  is opened for writing only after all lines have been built.
\<close>

type_synonym files = "string \<rightharpoonup> string"

definition write_yaml ::
  "obs_id list \<Rightarrow> call \<Rightarrow> files \<Rightarrow> notice list \<times> (error + unit) \<times> files" where
  "write_yaml ks c fs =
     (case write_lines ks c of
        (out, Inl e) \<Rightarrow> (out, Inl e, fs)
      | (out, Inr write) \<Rightarrow>
          (out @ [Success (length (observations (obs_results c))) (yaml_file c)],
           Inr (),
           fs(yaml_file c \<mapsto> concat write)))"

section \<open>The name rule as the specification words it\<close>

text \<open>
  The specification's rule for names, for comparison with \<open>obs_name\<close>: when the label
  holds a parenthetical segment, a space followed by an opening parenthesis and
  terminated by a closing one, the label is cut where the first such segment starts;
  a label without one is unchanged.
\<close>

fun spec_name :: "string \<Rightarrow> string" where
  "spec_name [] = []"
| "spec_name (c # cs) =
     (if prefix '' ('' (c # cs) \<and> CHR '')'' \<in> set (drop 1 cs) then []
      else c # spec_name cs)"

text \<open>
  A closing parenthesis comes before the first space followed by an opening
  parenthesis.
\<close>

fun close_before_first_open :: "string \<Rightarrow> bool" where
  "close_before_first_open [] = False"
| "close_before_first_open (c # cs) =
     (if prefix '' ('' (c # cs) then False
      else if c = CHR '')'' then str_contains '' ('' cs
      else close_before_first_open cs)"

section \<open>Closed forms used in the statements\<close>

text \<open>The rows of the table with a given observation id, in row order.\<close>

definition rows :: "obs_id \<Rightarrow> exposure list \<Rightarrow> exposure list" where
  "rows k tbl = filter (\<lambda>e. ObservationID e = k) tbl"

definition all_equal :: "nat list \<Rightarrow> bool" where
  "all_equal ls \<longleftrightarrow> (\<forall>a \<in> set ls. \<forall>b \<in> set ls. a = b)"

text \<open>\<open>num_obs\<close> of the source, and the number of distinct observation ids.\<close>

definition num_obs :: "call \<Rightarrow> nat" where
  "num_obs c = length (observations (obs_results c))"

definition num_groups :: "call \<Rightarrow> nat" where
  "num_groups c = len_set (map ObservationID (xml_table c))"

text \<open>
  What the grouping loop computes when it visits the ids \<open>ks\<close> once each: the notes on
  the ids whose filters in column \<open>f\<close> are not all the same, and the dictionary from
  each id to the column's entries on its rows.
\<close>

definition notes_of :: "(exposure \<Rightarrow> string) \<Rightarrow> obs_id list \<Rightarrow> exposure list \<Rightarrow> notice list" where
  "notes_of f ks tbl =
     map MultipleFilters (filter (\<lambda>k. 1 < len_set (map f (rows k tbl))) ks)"

definition groups_of ::
  "(exposure \<Rightarrow> string) \<Rightarrow> obs_id list \<Rightarrow> exposure list \<Rightarrow> string list dict" where
  "groups_of f ks tbl = map (\<lambda>k. (k, map f (rows k tbl))) ks"

text \<open>The catalog list of the NIRISS branch after the repetition of a single catalog.\<close>

definition single_cats :: "call \<Rightarrow> string list" where
  "single_cats c = broadcast (catalog_list (catalog_files c)) (num_obs c)"

text \<open>The lists \<open>all_param_lengths\<close> of the two branches.\<close>

definition single_lengths :: "call \<Rightarrow> nat list" where
  "single_lengths c = [length (single_cats c), num_groups c, num_obs c, num_obs c, num_obs c]"

definition dichroic_lengths :: "call \<Rightarrow> string list \<Rightarrow> string list \<Rightarrow> nat list" where
  "dichroic_lengths c sw lw =
     [length sw, length lw, num_groups c, num_groups c, num_obs c, num_obs c, num_obs c]"

text \<open>
  The lengths that the branch for instrument \<open>u\<close> compares, when it gets as far as
  taking them: both catalog lists must be given in the NIRCAM/WFSC branch, and an
  instrument without a branch has none.
\<close>

definition schema_lengths :: "call \<Rightarrow> string \<Rightarrow> nat list option" where
  "schema_lengths c u =
     (if u = ''NIRCAM'' \<or> u = ''WFSC'' then
        (case (ps_cat_sw c, ps_cat_lw c) of
           (Some sw, Some lw) \<Rightarrow> Some (dichroic_lengths c sw lw)
         | _ \<Rightarrow> None)
      else if u = ''NIRISS'' then Some (single_lengths c)
      else None)"

text \<open>The key under which the rendering loop looks up the group of observation \<open>i\<close>.\<close>

definition lookup_key :: "call \<Rightarrow> string \<Rightarrow> nat \<Rightarrow> obs_id" where
  "lookup_key c u i =
     (if u = ''NIRISS'' then IdInt (int i)
      else IdInt (int (i_observations (obs_results c) ! i + 1)))"

text \<open>The lines of one observation in the two layouts.\<close>

definition single_lines :: "call \<Rightarrow> string list \<Rightarrow> nat \<Rightarrow> string list" where
  "single_lines c cats i =
     obs_header (i_observations (obs_results c) ! i + 1) (obs_names (obs_results c) ! i) @
     concat (map (\<lambda>filt. single_filter filt (cats ! i))
                 (map PupilWheel (rows (IdInt (int i)) (xml_table c))))"

definition dichroic_lines :: "call \<Rightarrow> string list \<Rightarrow> string list \<Rightarrow> nat \<Rightarrow> string list" where
  "dichroic_lines c sw lw i =
     (let obs_number = i_observations (obs_results c) ! i + 1;
          r = rows (IdInt (int obs_number)) (xml_table c)
      in obs_header obs_number (obs_names (obs_results c) ! i) @
         concat (map (\<lambda>(i_filt, sw_filt, lw_filt).
                        filter_config i_filt sw_filt (sw ! i) lw_filt (lw ! i))
                     (enumerate 0 (zip (map ShortFilter r) (map LongFilter r)))))"

text \<open>Whether the lines were built, and the lines.\<close>

definition completes :: "obs_id list \<Rightarrow> call \<Rightarrow> bool" where
  "completes ks c = (case snd (write_lines ks c) of Inl e \<Rightarrow> False | Inr write \<Rightarrow> True)"

definition written :: "obs_id list \<Rightarrow> call \<Rightarrow> string list" where
  "written ks c = (case snd (write_lines ks c) of Inl e \<Rightarrow> [] | Inr write \<Rightarrow> write)"

definition is_observation_line :: "string \<Rightarrow> bool" where
  "is_observation_line l \<longleftrightarrow> prefix ''Observation'' l"

definition is_catalog_line :: "string \<Rightarrow> bool" where
  "is_catalog_line l \<longleftrightarrow> prefix ''  PointSourceCatalog: '' l"

text \<open>
  A printed line is a note of the grouping loop; and two calls that differ at most in
  the filter columns (and tile numbers) of their tables.
\<close>

definition is_note :: "notice \<Rightarrow> bool" where
  "is_note n = (case n of MultipleFilters k \<Rightarrow> True | _ \<Rightarrow> False)"

definition same_but_filters :: "call \<Rightarrow> call \<Rightarrow> bool" where
  "same_but_filters c c' \<longleftrightarrow>
     obs_results c' = obs_results c \<and> yaml_file c' = yaml_file c \<and>
     catalog_files c' = catalog_files c \<and>
     ps_cat_sw c' = ps_cat_sw c \<and> ps_cat_lw c' = ps_cat_lw c \<and>
     map Instrument (xml_table c') = map Instrument (xml_table c) \<and>
     map ObservationID (xml_table c') = map ObservationID (xml_table c)"

section \<open>Example calls\<close>

definition node :: "string \<Rightarrow> string \<Rightarrow> observation" where
  "node i l = \<lparr>obs_instrument = i, obs_label = l\<rparr>"

definition row :: "string \<Rightarrow> string \<Rightarrow> string \<Rightarrow> string \<Rightarrow> obs_id \<Rightarrow> exposure" where
  "row i sw lw pw k =
     \<lparr>Instrument = i, ShortFilter = sw, LongFilter = lw, PupilWheel = pw,
      TileNumber = ''1'', ObservationID = k\<rparr>"

text \<open>
  Two NIRISS observations around one of an unsupported instrument, ids counted from
  0, two different filters in the first observation, one catalog path.
\<close>

definition niriss_call :: call where
  "niriss_call =
     \<lparr>obs_results = [node ''NIRISS'' ''OTE-01 (Commissioning)'', node ''MIRI'' ''M'',
                     node ''NIRISS'' ''B''],
      xml_table = [row ''NIRISS'' [] [] ''F200W'' (IdInt 0),
                   row ''NIRISS'' [] [] ''F150W'' (IdInt 0),
                   row ''NIRISS'' [] [] ''CLEAR'' (IdInt 1)],
      yaml_file = ''out.yaml'',
      catalog_files = CatStr ''cat.list'',
      ps_cat_sw = None, ps_cat_lw = None\<rparr>"

text \<open>The same proposal with three catalog paths for its two selected observations.\<close>

definition niriss_three_catalogs :: call where
  "niriss_three_catalogs =
     niriss_call\<lparr>catalog_files := CatList [''a.cat'', ''b.cat'', ''c.cat'']\<rparr>"

text \<open>One NIRISS observation whose exposures carry the id 1.\<close>

definition niriss_one_based :: call where
  "niriss_one_based =
     \<lparr>obs_results = [node ''NIRISS'' ''A''],
      xml_table = [row ''NIRISS'' [] [] ''CLEAR'' (IdInt 1)],
      yaml_file = ''out.yaml'',
      catalog_files = CatStr ''cat.list'',
      ps_cat_sw = None, ps_cat_lw = None\<rparr>"

text \<open>
  One NIRCAM observation, ids counted from 1, with two exposures that share the
  short-wavelength filter and differ in the long-wavelength filter.
\<close>

definition nircam_call :: call where
  "nircam_call =
     \<lparr>obs_results = [node ''NIRCAM'' ''A''],
      xml_table = [row ''NIRCAM'' ''F212N'' ''F277W'' [] (IdInt 1),
                   row ''NIRCAM'' ''F212N'' ''F444W'' [] (IdInt 1)],
      yaml_file = ''out.yaml'',
      catalog_files = CatList [],
      ps_cat_sw = Some [''sw.cat''], ps_cat_lw = Some [''lw.cat'']\<rparr>"

text \<open>The same call with the two catalog arguments left at their default.\<close>

definition nircam_default_catalogs :: call where
  "nircam_default_catalogs = nircam_call\<lparr>ps_cat_sw := None, ps_cat_lw := None\<rparr>"

text \<open>A table with exposures of two instruments.\<close>

definition mixed_call :: call where
  "mixed_call =
     \<lparr>obs_results = [node ''NIRCAM'' ''A'', node ''NIRISS'' ''B''],
      xml_table = [row ''NIRCAM'' ''F212N'' ''F277W'' [] (IdInt 1),
                   row ''NIRISS'' [] [] ''CLEAR'' (IdInt 2)],
      yaml_file = ''out.yaml'',
      catalog_files = CatStr ''cat.list'',
      ps_cat_sw = Some [''sw.cat''], ps_cat_lw = Some [''lw.cat'']\<rparr>"

text \<open>An FGS proposal: one observation, one exposure, one catalog.\<close>

definition fgs_call :: call where
  "fgs_call =
     \<lparr>obs_results = [node ''FGS'' ''A''],
      xml_table = [row ''FGS'' [] [] ''CLEAR'' (IdInt 0)],
      yaml_file = ''out.yaml'',
      catalog_files = CatStr ''cat.list'',
      ps_cat_sw = None, ps_cat_lw = None\<rparr>"

text \<open>Three FGS observations, ids counted from 0, one catalog path.\<close>

definition fgs_three_observations :: call where
  "fgs_three_observations =
     \<lparr>obs_results = [node ''FGS'' ''A'', node ''FGS'' ''B'', node ''FGS'' ''C''],
      xml_table = [row ''FGS'' [] [] ''CLEAR'' (IdInt 0),
                   row ''FGS'' [] [] ''CLEAR'' (IdInt 1),
                   row ''FGS'' [] [] ''CLEAR'' (IdInt 2)],
      yaml_file = ''out.yaml'',
      catalog_files = CatStr ''cat.list'',
      ps_cat_sw = None, ps_cat_lw = None\<rparr>"

text \<open>The same three FGS observations with two catalog paths.\<close>

definition fgs_two_catalogs :: call where
  "fgs_two_catalogs =
     fgs_three_observations\<lparr>catalog_files := CatList [''a.cat'', ''b.cat'']\<rparr>"

text \<open>One FGS observation with two exposures that differ in the filter.\<close>

definition fgs_two_filters :: call where
  "fgs_two_filters =
     \<lparr>obs_results = [node ''FGS'' ''A''],
      xml_table = [row ''FGS'' [] [] ''CLEAR'' (IdInt 0),
                   row ''FGS'' [] [] ''F200W'' (IdInt 0)],
      yaml_file = ''out.yaml'',
      catalog_files = CatStr ''cat.list'',
      ps_cat_sw = None, ps_cat_lw = None\<rparr>"

text \<open>The NIRISS proposal with the same filter on all exposures.\<close>

definition niriss_uniform :: call where
  "niriss_uniform =
     niriss_call\<lparr>xml_table := [row ''NIRISS'' [] [] ''CLEAR'' (IdInt 0),
                                row ''NIRISS'' [] [] ''CLEAR'' (IdInt 0),
                                row ''NIRISS'' [] [] ''CLEAR'' (IdInt 1)]\<rparr>"

section \<open>Basic facts\<close>

lemma np_unique_single: "set xs = {u} \<Longrightarrow> np_unique xs = [u]"
proof -
  assume s: "set xs = {u}"
  have "length (remdups xs) = card (set xs)" by (rule length_remdups_card_conv)
  with s have "length (remdups xs) = 1" by simp
  then obtain y where y: "remdups xs = [y]" by (cases "remdups xs") auto
  then have "set xs = {y}" by (metis set_remdups list.simps(15) empty_set)
  with s y show ?thesis by (simp add: np_unique_def)
qed

lemma np_unique_many: "length (np_unique xs) > 1 \<longleftrightarrow> card (set xs) > 1"
  by (simp add: np_unique_def length_remdups_card_conv)

lemma mask_select_rows:
  "mask_select (map f tbl) (current_obs_indices k (map ObservationID tbl)) = map f (rows k tbl)"
  by (induction tbl) (auto simp: mask_select_def current_obs_indices_def rows_def)

lemma dict_set_fresh: "k \<notin> fst ` set d \<Longrightarrow> dict_set d k v = d @ [(k, v)]"
  by (induction d) (auto simp: dict_set_def)

lemma group_single_eq:
  "distinct ks \<Longrightarrow> set ks \<inter> fst ` set d = {} \<Longrightarrow>
   group_single ks (map ObservationID tbl) (map f tbl) (out, d) =
     (out @ map MultipleFilters (filter (\<lambda>k. 1 < len_set (map f (rows k tbl))) ks),
      d @ map (\<lambda>k. (k, map f (rows k tbl))) ks)"
proof (induction ks arbitrary: out d)
  case Nil
  then show ?case by simp
next
  case (Cons k ks)
  from Cons.prems have fresh: "k \<notin> fst ` set d" by auto
  from Cons.prems have "distinct ks" "set ks \<inter> fst ` set (d @ [(k, map f (rows k tbl))]) = {}"
    by auto
  note IH = Cons.IH [OF this]
  show ?case
    by (simp add: mask_select_rows dict_set_fresh [OF fresh] IH Let_def)
qed

lemma group_dichroic_eq:
  "distinct ks \<Longrightarrow> set ks \<inter> fst ` set d = {} \<Longrightarrow> set ks \<inter> fst ` set d' = {} \<Longrightarrow>
   group_dichroic ks (map ObservationID tbl) (map f tbl) (map g tbl) (out, d, d') =
     (out @ map MultipleFilters (filter (\<lambda>k. 1 < len_set (map f (rows k tbl))) ks),
      d @ map (\<lambda>k. (k, map f (rows k tbl))) ks,
      d' @ map (\<lambda>k. (k, map g (rows k tbl))) ks)"
proof (induction ks arbitrary: out d d')
  case Nil
  then show ?case by simp
next
  case (Cons k ks)
  from Cons.prems have fresh: "k \<notin> fst ` set d" "k \<notin> fst ` set d'" by auto
  from Cons.prems have "distinct ks" "set ks \<inter> fst ` set (d @ [(k, map f (rows k tbl))]) = {}"
     "set ks \<inter> fst ` set (d' @ [(k, map g (rows k tbl))]) = {}"
    by auto
  note IH = Cons.IH [OF this]
  show ?case
    by (simp add: mask_select_rows dict_set_fresh fresh IH Let_def)
qed

lemma used_single:
  "Instrument ` set (xml_table c) = {u} \<Longrightarrow> np_unique (map Instrument (xml_table c)) = [u]"
  by (rule np_unique_single) simp

lemma len_set_all_equal: "len_set ls > 1 \<longleftrightarrow> \<not> all_equal ls"
proof -
  have "len_set ls = card (set ls)" by (simp add: len_set_def length_remdups_card_conv)
  moreover have "card (set ls) \<le> 1 \<longleftrightarrow> all_equal ls"
    unfolding all_equal_def by (metis List.finite_set card_le_Suc0_iff_eq One_nat_def)
  ultimately show ?thesis by auto
qed

lemma length_groups_of:
  "set_iteration ks (map ObservationID (xml_table c)) \<Longrightarrow> length (groups_of f ks (xml_table c)) = num_groups c"
  by (metis (no_types) groups_of_def length_map set_iteration_def num_groups_def len_set_def distinct_card length_remdups_card_conv)

lemma dispatch_dichroic:
  assumes "Instrument ` set (xml_table c) = {u}"
    and "u = ''NIRCAM'' \<or> u = ''WFSC''"
    and "set_iteration ks (map ObservationID (xml_table c))"
    and "ps_cat_sw c = Some sw" "ps_cat_lw c = Some lw"
  shows "dispatch ks c =
    (Summary (length (xml_table c)) # notes_of ShortFilter ks (xml_table c),
     Inr (DichroicLocals (groups_of ShortFilter ks (xml_table c)) (groups_of LongFilter ks (xml_table c)),
          Some [length sw, length lw, num_groups c, num_groups c,
                length (observations (obs_results c)), length (i_observations (obs_results c)),
                length (obs_names (obs_results c))]))"
proof -
  from assms(3) have "distinct ks" by (simp add: set_iteration_def)
  then have g: "group_dichroic ks (map ObservationID (xml_table c))
         (map ShortFilter (xml_table c)) (map LongFilter (xml_table c)) ([], [], []) =
       (notes_of ShortFilter ks (xml_table c), groups_of ShortFilter ks (xml_table c),
        groups_of LongFilter ks (xml_table c))"
    by (simp add: group_dichroic_eq notes_of_def groups_of_def)
  from assms(2) show ?thesis
    by (auto simp: dispatch_def Let_def used_single [OF assms(1)] py_index_def g assms(4,5)
       length_groups_of [OF assms(3)])
qed

lemma dispatch_single:
  assumes "Instrument ` set (xml_table c) = {''NIRISS''}"
    and "set_iteration ks (map ObservationID (xml_table c))"
  shows "dispatch ks c =
    (Summary (length (xml_table c)) # notes_of PupilWheel ks (xml_table c),
     Inr (SingleLocals (groups_of PupilWheel ks (xml_table c))
            (broadcast (catalog_list (catalog_files c)) (length (observations (obs_results c)))),
          Some [length (broadcast (catalog_list (catalog_files c)) (length (observations (obs_results c)))),
                num_groups c,
                length (observations (obs_results c)), length (i_observations (obs_results c)),
                length (obs_names (obs_results c))]))"
proof -
  from assms(2) have "distinct ks" by (simp add: set_iteration_def)
  then have g: "group_single ks (map ObservationID (xml_table c))
         (map PupilWheel (xml_table c)) ([], []) =
       (notes_of PupilWheel ks (xml_table c), groups_of PupilWheel ks (xml_table c))"
    by (simp add: group_single_eq notes_of_def groups_of_def)
  show ?thesis
    by (simp add: dispatch_def Let_def used_single [OF assms(1)] py_index_def g 
       length_groups_of [OF assms(2)])
qed

lemma dispatch_other:
  assumes "Instrument ` set (xml_table c) = {u}"
    and "u \<notin> {''NIRCAM'', ''WFSC'', ''NIRISS''}"
  shows "dispatch ks c = ([Summary (length (xml_table c))], Inr (NoLocals, None))"
  using assms(2) by (simp add: dispatch_def Let_def used_single [OF assms(1)] py_index_def)


lemma selected_lengths:
  "length (i_observations os) = length (observations os)"
  "length (obs_names os) = length (observations os)"
  by (simp_all add: i_observations_def observations_def obs_names_def)

lemma traverse_all_ok:
  "(\<And>x. x \<in> set xs \<Longrightarrow> f x = Inr (g x)) \<Longrightarrow> traverse f xs = Inr (map g xs)"
  by (induction xs) auto

lemma map_enumerate_snd: "map (\<lambda>(i, x). g x) (enumerate n xs) = map g xs"
  by (induction xs arbitrary: n) auto

lemma dict_get_groups:
  "dict_get (groups_of f ks tbl) k = (if k \<in> set ks then Inr (map f (rows k tbl)) else Inl KeyError)"
  by (induction ks) (auto simp: dict_get_def groups_of_def)

lemma single_block_eq:
  assumes "i < num_obs c" "i < length cats"
  shows "single_block c (groups_of PupilWheel ks (xml_table c)) cats i =
     (if IdInt (int i) \<in> set ks then Inr (single_lines c cats i) else Inl KeyError)"
proof -
  have t: "traverse (\<lambda>(i_filt, filt). Inr (single_filter filt (cats ! i))) (enumerate 0 fs)
        = Inr (map (\<lambda>(i_filt, filt). single_filter filt (cats ! i)) (enumerate 0 fs))"
    for fs :: "string list"
    by (intro traverse_all_ok) auto
  have m: "map (\<lambda>(i_filt, filt). single_filter filt (cats ! i)) (enumerate 0 fs)
       = map (\<lambda>filt. single_filter filt (cats ! i)) fs" for fs :: "string list"
    by (rule map_enumerate_snd)
  from assms show ?thesis
    by (simp add: single_block_def py_index_def selected_lengths num_obs_def dict_get_groups t m
        single_lines_def Let_def)
qed


lemma dichroic_block_eq:
  assumes "i < num_obs c" "ps_cat_sw c = Some sw" "ps_cat_lw c = Some lw"
    "i < length sw" "i < length lw"
  shows "dichroic_block c (groups_of ShortFilter ks (xml_table c))
           (groups_of LongFilter ks (xml_table c)) i =
     (if IdInt (int (i_observations (obs_results c) ! i + 1)) \<in> set ks
      then Inr (dichroic_lines c sw lw i) else Inl KeyError)"
proof -
  have t: "traverse (\<lambda>(i_filt, sw_filt, lw_filt).
               Inr (filter_config i_filt sw_filt (sw ! i) lw_filt (lw ! i))) ps
        = Inr (map (\<lambda>(i_filt, sw_filt, lw_filt).
               filter_config i_filt sw_filt (sw ! i) lw_filt (lw ! i)) ps)"
    for ps :: "(nat \<times> string \<times> string) list"
    by (intro traverse_all_ok) auto
  from assms show ?thesis
    by (simp add: dichroic_block_def py_index_def selected_lengths num_obs_def dict_get_groups t
        dichroic_lines_def Let_def ps_cat_index_def)
qed

lemma traverse_if:
  "(\<And>x. x \<in> set xs \<Longrightarrow> f x = (if P x then Inr (g x) else Inl e)) \<Longrightarrow>
   traverse f xs = (if \<forall>x \<in> set xs. P x then Inr (map g xs) else Inl e)"
  by (induction xs) auto

lemma all_equalD: "all_equal ls \<Longrightarrow> x \<in> set ls \<Longrightarrow> y \<in> set ls \<Longrightarrow> x = y"
  by (simp add: all_equal_def)

lemma check_lengths_eq:
  "check_lengths (Some ls) =
     (if all_equal ls then ([], Inr ()) else ([ParamLengths ls], Inl ValueError))"
  using len_set_all_equal [of ls] by (simp add: check_lengths_def)

lemma write_lines_single:
  assumes "Instrument ` set (xml_table c) = {''NIRISS''}"
    and "set_iteration ks (map ObservationID (xml_table c))"
  shows "write_lines ks c =
    (if all_equal (single_lengths c) then
       (Summary (length (xml_table c)) # notes_of PupilWheel ks (xml_table c),
        if \<forall>i < num_obs c. IdInt (int i) \<in> ObservationID ` set (xml_table c)
        then Inr (preamble @ concat (map (single_lines c (single_cats c)) [0..<num_obs c]))
        else Inl KeyError)
     else
       (Summary (length (xml_table c)) # notes_of PupilWheel ks (xml_table c)
          @ [ParamLengths (single_lengths c)],
        Inl ValueError))"
proof (cases "all_equal (single_lengths c)")
  case False
  then show ?thesis
    by (simp add: write_lines_def dispatch_single [OF assms] selected_lengths check_lengths_eq
          single_lengths_def single_cats_def num_obs_def)
next
  case True
  then have len: "length (single_cats c) = num_obs c"
    by (rule all_equalD) (simp_all add: single_lengths_def)
  from assms(2) have ks: "set ks = ObservationID ` set (xml_table c)"
    by (simp add: set_iteration_def)
  have "traverse (single_block c (groups_of PupilWheel ks (xml_table c)) (single_cats c))
          [0..<num_obs c] =
        (if \<forall>i \<in> set [0..<num_obs c]. IdInt (int i) \<in> set ks
         then Inr (map (single_lines c (single_cats c)) [0..<num_obs c]) else Inl KeyError)"
    by (rule traverse_if) (simp add: single_block_eq len)
  then have r: "render_blocks c ''NIRISS'' (SingleLocals (groups_of PupilWheel ks (xml_table c))
                 (single_cats c)) =
        (if \<forall>i < num_obs c. IdInt (int i) \<in> ObservationID ` set (xml_table c)
         then Inr (map (single_lines c (single_cats c)) [0..<num_obs c]) else Inl KeyError)"
    by (simp add: render_blocks_def num_obs_def ks)
  have d: "dispatch ks c = (Summary (length (xml_table c)) # notes_of PupilWheel ks (xml_table c),
     Inr (SingleLocals (groups_of PupilWheel ks (xml_table c)) (single_cats c),
          Some (single_lengths c)))"
    by (simp add: dispatch_single [OF assms] selected_lengths single_lengths_def single_cats_def
        num_obs_def)
  from True show ?thesis
    by (simp add: write_lines_def d check_lengths_eq used_single [OF assms(1)] py_index_def r)
qed

lemma write_lines_dichroic:
  assumes "Instrument ` set (xml_table c) = {u}"
    and "u = ''NIRCAM'' \<or> u = ''WFSC''"
    and "set_iteration ks (map ObservationID (xml_table c))"
    and "ps_cat_sw c = Some sw" "ps_cat_lw c = Some lw"
  shows "write_lines ks c =
    (if all_equal (dichroic_lengths c sw lw) then
       (Summary (length (xml_table c)) # notes_of ShortFilter ks (xml_table c),
        if \<forall>i < num_obs c. IdInt (int (i_observations (obs_results c) ! i + 1))
                              \<in> ObservationID ` set (xml_table c)
        then Inr (preamble @ concat (map (dichroic_lines c sw lw) [0..<num_obs c]))
        else Inl KeyError)
     else
       (Summary (length (xml_table c)) # notes_of ShortFilter ks (xml_table c)
          @ [ParamLengths (dichroic_lengths c sw lw)],
        Inl ValueError))"
proof (cases "all_equal (dichroic_lengths c sw lw)")
  case False
  then show ?thesis
    by (simp add: write_lines_def dispatch_dichroic [OF assms] selected_lengths check_lengths_eq
          dichroic_lengths_def num_obs_def)
next
  case True
  then have len: "length sw = num_obs c" "length lw = num_obs c"
    by (rule all_equalD; simp add: dichroic_lengths_def)+
  from assms(3) have ks: "set ks = ObservationID ` set (xml_table c)"
    by (simp add: set_iteration_def)
  have "traverse (dichroic_block c (groups_of ShortFilter ks (xml_table c))
                    (groups_of LongFilter ks (xml_table c))) [0..<num_obs c] =
        (if \<forall>i \<in> set [0..<num_obs c].
               IdInt (int (i_observations (obs_results c) ! i + 1)) \<in> set ks
         then Inr (map (dichroic_lines c sw lw) [0..<num_obs c]) else Inl KeyError)"
    by (rule traverse_if) (simp add: dichroic_block_eq [OF _ assms(4,5)] len)
  then have r: "render_blocks c u (DichroicLocals (groups_of ShortFilter ks (xml_table c))
                   (groups_of LongFilter ks (xml_table c))) =
        (if \<forall>i < num_obs c. IdInt (int (i_observations (obs_results c) ! i + 1))
                \<in> ObservationID ` set (xml_table c)
         then Inr (map (dichroic_lines c sw lw) [0..<num_obs c]) else Inl KeyError)"
    using assms(2) by (auto simp: render_blocks_def num_obs_def ks)
  have d: "dispatch ks c = (Summary (length (xml_table c)) # notes_of ShortFilter ks (xml_table c),
     Inr (DichroicLocals (groups_of ShortFilter ks (xml_table c))
            (groups_of LongFilter ks (xml_table c)),
          Some (dichroic_lengths c sw lw)))"
    by (simp add: dispatch_dichroic [OF assms] selected_lengths dichroic_lengths_def num_obs_def)
  from True show ?thesis
    by (simp add: write_lines_def d check_lengths_eq used_single [OF assms(1)] py_index_def r)
qed

section \<open>The example calls evaluated\<close>

lemma niriss_instrument: "Instrument ` set (xml_table niriss_call) = {''NIRISS''}"
  by (simp add: niriss_call_def row_def)

lemma niriss_iteration:
  "set_iteration [IdInt 0, IdInt 1] (map ObservationID (xml_table niriss_call))"
  "set_iteration [IdInt 1, IdInt 0] (map ObservationID (xml_table niriss_call))"
  by (auto simp: niriss_call_def row_def set_iteration_def)

lemma niriss_selected:
  "selected (obs_results niriss_call) =
     [(0, node ''NIRISS'' ''OTE-01 (Commissioning)''), (2, node ''NIRISS'' ''B'')]"
  by (simp add: niriss_call_def selected_def node_def supported_instruments_def
        enumerate_eq_zip upt_rec)

lemma niriss_num_obs: "num_obs niriss_call = 2"
  by (simp add: num_obs_def observations_def niriss_selected)

lemma niriss_num_groups: "num_groups niriss_call = 2"
  by (simp add: num_groups_def len_set_def niriss_call_def row_def)

lemma niriss_catalog: "catalog_files niriss_call = CatStr ''cat.list''"
  by (simp add: niriss_call_def)

lemma niriss_single_cats: "single_cats niriss_call = [''cat.list'', ''cat.list'']"
  by (simp add: single_cats_def niriss_num_obs broadcast_def catalog_list_def
        niriss_catalog numeral_2_eq_2)

lemma niriss_lengths: "single_lengths niriss_call = [2, 2, 2, 2, 2]"
  by (simp add: single_lengths_def niriss_num_obs niriss_num_groups niriss_single_cats)

lemma niriss_keys:
  "\<forall>i < num_obs niriss_call. IdInt (int i) \<in> ObservationID ` set (xml_table niriss_call)"
  by (simp add: niriss_num_obs numeral_2_eq_2 less_Suc_eq) (simp add: niriss_call_def row_def)

lemma three_catalogs_same:
  "xml_table niriss_three_catalogs = xml_table niriss_call"
  "obs_results niriss_three_catalogs = obs_results niriss_call"
  "num_obs niriss_three_catalogs = num_obs niriss_call"
  "num_groups niriss_three_catalogs = num_groups niriss_call"
  by (simp_all add: niriss_three_catalogs_def num_obs_def num_groups_def)

lemma three_catalogs_files:
  "catalog_files niriss_three_catalogs = CatList [''a.cat'', ''b.cat'', ''c.cat'']"
  by (simp add: niriss_three_catalogs_def)

lemma three_catalogs_lengths: "single_lengths niriss_three_catalogs = [3, 2, 2, 2, 2]"
  by (simp add: single_lengths_def three_catalogs_same niriss_num_obs niriss_num_groups
        single_cats_def broadcast_def catalog_list_def three_catalogs_files)

lemma one_based_instrument: "Instrument ` set (xml_table niriss_one_based) = {''NIRISS''}"
  by (simp add: niriss_one_based_def row_def)

lemma one_based_iteration:
  "set_iteration [IdInt 1] (map ObservationID (xml_table niriss_one_based))"
  by (simp add: niriss_one_based_def row_def set_iteration_def)

lemma one_based_num_obs: "num_obs niriss_one_based = 1"
  by (simp add: num_obs_def observations_def selected_def niriss_one_based_def node_def
        supported_instruments_def)

lemma one_based_lengths: "single_lengths niriss_one_based = [1, 1, 1, 1, 1]"
  by (simp add: single_lengths_def one_based_num_obs single_cats_def broadcast_def
        catalog_list_def num_groups_def len_set_def)
     (simp add: niriss_one_based_def row_def)

lemma nircam_instrument: "Instrument ` set (xml_table nircam_call) = {''NIRCAM''}"
  by (simp add: nircam_call_def row_def)

lemma nircam_iteration:
  "set_iteration [IdInt 1] (map ObservationID (xml_table nircam_call))"
  by (simp add: nircam_call_def row_def set_iteration_def)

lemma nircam_catalogs:
  "ps_cat_sw nircam_call = Some [''sw.cat'']" "ps_cat_lw nircam_call = Some [''lw.cat'']"
  by (simp_all add: nircam_call_def)

lemma nircam_selected: "selected (obs_results nircam_call) = [(0, node ''NIRCAM'' ''A'')]"
  by (simp add: selected_def nircam_call_def node_def supported_instruments_def)

lemma nircam_num_obs: "num_obs nircam_call = 1"
  by (simp add: num_obs_def observations_def nircam_selected)

lemma nircam_lengths:
  "dichroic_lengths nircam_call [''sw.cat''] [''lw.cat''] = [1, 1, 1, 1, 1, 1, 1]"
  by (simp add: dichroic_lengths_def nircam_num_obs num_groups_def len_set_def)
     (simp add: nircam_call_def row_def)

lemma all_equal_replicate: "all_equal (replicate n x)"
  by (simp add: all_equal_def)

section \<open>Facts about the rendered lines and the outcome\<close>

lemma observation_lines_header:
  "filter is_observation_line (obs_header n name) = [observation_line n]"
  by (simp add: obs_header_def is_observation_line_def observation_line_def kv_def)

lemma observation_lines_single_filter:
  "filter is_observation_line (single_filter filt cat) = []"
  by (simp add: single_filter_def default_lines_def is_observation_line_def kv_def)

lemma observation_lines_filter_config:
  "filter is_observation_line (filter_config i s cs l cl) = []"
  by (simp add: filter_config_def default_lines_def is_observation_line_def kv_def)

lemma observation_lines_preamble: "filter is_observation_line preamble = []"
  by (simp add: preamble_def is_observation_line_def)

lemma filter_concat_empty: "(\<And>x. x \<in> set xs \<Longrightarrow> filter P (g x) = []) \<Longrightarrow> filter P (concat (map g xs)) = []"
  by (induction xs) auto

lemma filter_concat_single:
  "(\<And>x. x \<in> set xs \<Longrightarrow> filter P (g x) = [h x]) \<Longrightarrow> filter P (concat (map g xs)) = map h xs"
  by (induction xs) auto

lemma observation_lines_single:
  "filter is_observation_line (single_lines c cats i) =
     [observation_line (i_observations (obs_results c) ! i + 1)]"
  by (simp add: single_lines_def observation_lines_header filter_concat_empty
        observation_lines_single_filter)

lemma observation_lines_dichroic:
  "filter is_observation_line (dichroic_lines c sw lw i) =
     [observation_line (i_observations (obs_results c) ! i + 1)]"
proof -
  have "filter is_observation_line (concat (map (\<lambda>(i_filt, sw_filt, lw_filt).
                        filter_config i_filt sw_filt (sw ! i) lw_filt (lw ! i)) ps)) = []" for ps
    by (rule filter_concat_empty) (auto simp: observation_lines_filter_config)
  then show ?thesis
    by (simp add: dichroic_lines_def Let_def observation_lines_header)
qed

lemma observation_lines_blocks:
  assumes "\<And>i. filter is_observation_line (g i) =
               [observation_line (i_observations (obs_results c) ! i + 1)]"
  shows "filter is_observation_line (preamble @ concat (map g [0..<num_obs c])) =
     map (\<lambda>p. observation_line (p + 1)) (i_observations (obs_results c))"
proof -
  have "filter is_observation_line (concat (map g [0..<num_obs c])) =
      map (\<lambda>i. observation_line (i_observations (obs_results c) ! i + 1)) [0..<num_obs c]"
    by (rule filter_concat_single) (rule assms)
  also have "\<dots> = map (\<lambda>p. observation_line (p + 1))
       (map ((!) (i_observations (obs_results c))) [0..<length (i_observations (obs_results c))])"
    by (simp add: num_obs_def selected_lengths)
  also have "\<dots> = map (\<lambda>p. observation_line (p + 1)) (i_observations (obs_results c))"
    by (simp only: map_nth)
  finally show ?thesis by (simp add: observation_lines_preamble)
qed

lemma i_observations_increasing: "sorted_wrt (<) (i_observations os)"
proof -
  have "sorted_wrt (\<lambda>a b. fst a < fst b) (enumerate 0 os)"
    unfolding sorted_wrt_map [symmetric] by (simp add: map_fst_enumerate)
  then have "sorted_wrt (\<lambda>a b. fst a < fst b) (selected os)"
    unfolding selected_def by (rule sorted_wrt_filter)
  then show ?thesis by (simp add: i_observations_def sorted_wrt_map)
qed

lemma selected_positions:
  assumes "j < length (observations os)"
  shows "i_observations os ! j < length os \<and> os ! (i_observations os ! j) = observations os ! j
     \<and> obs_instrument (observations os ! j) \<in> set supported_instruments"
proof -
  from assms have "selected os ! j \<in> set (selected os)"
    by (simp add: observations_def)
  then have "selected os ! j \<in> set (enumerate 0 os)"
     and "obs_instrument (snd (selected os ! j)) \<in> set supported_instruments"
    by (auto simp: selected_def)
  with assms show ?thesis
    by (simp add: in_set_enumerate_eq i_observations_def observations_def)
qed

lemma dispatch_dichroic_none:
  assumes "Instrument ` set (xml_table c) = {u}"
    and "u = ''NIRCAM'' \<or> u = ''WFSC''"
    and "ps_cat_sw c = None \<or> ps_cat_lw c = None"
  shows "snd (dispatch ks c) = Inl TypeError"
  using assms(2,3)
  by (auto simp: dispatch_def Let_def used_single [OF assms(1)] py_index_def
        split: prod.splits option.splits)

lemma write_lines_dispatch_error:
  "snd (dispatch ks c) = Inl e \<Longrightarrow> snd (write_lines ks c) = Inl e"
  by (cases "dispatch ks c") (simp add: write_lines_def)

lemma write_lines_other:
  assumes "Instrument ` set (xml_table c) = {u}"
    and "u \<notin> {''NIRCAM'', ''WFSC'', ''NIRISS''}"
  shows "write_lines ks c = ([Summary (length (xml_table c))], Inl UnboundLocalError)"
  by (simp add: write_lines_def dispatch_other [OF assms] check_lengths_def)

lemma write_lines_many:
  assumes "1 < card (Instrument ` set (xml_table c))"
  shows "write_lines ks c = ([Summary (length (xml_table c))], Inl NotImplementedError)"
proof -
  from assms have "length (np_unique (map Instrument (xml_table c))) > 1"
    using np_unique_many [of "map Instrument (xml_table c)"] by simp
  then show ?thesis by (simp add: write_lines_def dispatch_def Let_def)
qed

lemma write_lines_empty:
  assumes "xml_table c = []"
  shows "write_lines ks c = ([Summary 0], Inl IndexError)"
  by (simp add: write_lines_def dispatch_def Let_def assms np_unique_def py_index_def)

lemma instrument_cases:
  obtains (many) "1 < card (Instrument ` set (xml_table c))"
  | (none) "xml_table c = []"
  | (one) u where "Instrument ` set (xml_table c) = {u}"
proof -
  have "card (Instrument ` set (xml_table c)) = 0 \<or> card (Instrument ` set (xml_table c)) = 1
     \<or> 1 < card (Instrument ` set (xml_table c))" by arith
  then show ?thesis
  proof (elim disjE)
    assume "card (Instrument ` set (xml_table c)) = 0"
    then have "xml_table c = []" by simp
    then show ?thesis by (rule none)
  next
    assume "card (Instrument ` set (xml_table c)) = 1"
    then obtain u where "Instrument ` set (xml_table c) = {u}" by (rule card_1_singletonE)
    then show ?thesis by (rule one)
  next
    assume "1 < card (Instrument ` set (xml_table c))"
    then show ?thesis by (rule many)
  qed
qed

lemma completes_cases:
  assumes "set_iteration ks (map ObservationID (xml_table c))" and "completes ks c"
  obtains (dichroic) u sw lw where
      "Instrument ` set (xml_table c) = {u}" "u = ''NIRCAM'' \<or> u = ''WFSC''"
      "ps_cat_sw c = Some sw" "ps_cat_lw c = Some lw"
      "all_equal (dichroic_lengths c sw lw)"
      "\<forall>i < num_obs c. IdInt (int (i_observations (obs_results c) ! i + 1))
                              \<in> ObservationID ` set (xml_table c)"
      "written ks c = preamble @ concat (map (dichroic_lines c sw lw) [0..<num_obs c])"
  | (single)
      "Instrument ` set (xml_table c) = {''NIRISS''}"
      "all_equal (single_lengths c)"
      "\<forall>i < num_obs c. IdInt (int i) \<in> ObservationID ` set (xml_table c)"
      "written ks c = preamble @ concat (map (single_lines c (single_cats c)) [0..<num_obs c])"
proof (cases c rule: instrument_cases)
  case many
  with assms(2) show ?thesis by (simp add: completes_def write_lines_many)
next
  case none
  with assms(2) show ?thesis by (simp add: completes_def write_lines_empty)
next
  case (one u)
  show ?thesis
  proof (cases "u = ''NIRISS''")
    case True
    with one have i: "Instrument ` set (xml_table c) = {''NIRISS''}" by simp
    note w = write_lines_single [OF i assms(1)]
    from assms(2) have a: "all_equal (single_lengths c)"
      by (simp add: completes_def w split: if_splits)
    with assms(2) have k: "\<forall>i < num_obs c. IdInt (int i) \<in> ObservationID ` set (xml_table c)"
      by (simp add: completes_def w split: if_splits)
    with a have "written ks c =
        preamble @ concat (map (single_lines c (single_cats c)) [0..<num_obs c])"
      by (simp add: written_def w)
    with i a k show ?thesis by (rule single)
  next
    case False
    show ?thesis
    proof (cases "u = ''NIRCAM'' \<or> u = ''WFSC''")
      case u: True
      from assms(2) have "snd (write_lines ks c) \<noteq> Inl TypeError"
        by (auto simp: completes_def)
      then have "snd (dispatch ks c) \<noteq> Inl TypeError"
        using write_lines_dispatch_error by blast
      then have "\<not> (ps_cat_sw c = None \<or> ps_cat_lw c = None)"
        using dispatch_dichroic_none [OF one u] by blast
      then obtain sw lw where ps: "ps_cat_sw c = Some sw" "ps_cat_lw c = Some lw" by auto
      note w = write_lines_dichroic [OF one u assms(1) ps]
      from assms(2) have a: "all_equal (dichroic_lengths c sw lw)"
        by (simp add: completes_def w split: if_splits)
      with assms(2) have k: "\<forall>i < num_obs c.
          IdInt (int (i_observations (obs_results c) ! i + 1)) \<in> ObservationID ` set (xml_table c)"
        by (simp add: completes_def w split: if_splits)
      with a have "written ks c =
          preamble @ concat (map (dichroic_lines c sw lw) [0..<num_obs c])"
        by (simp add: written_def w)
      with one u ps a k show ?thesis by (rule dichroic)
    next
      case False
      with \<open>u \<noteq> ''NIRISS''\<close> have "u \<notin> {''NIRCAM'', ''WFSC'', ''NIRISS''}" by simp
      from write_lines_other [OF one this] assms(2) show ?thesis
        by (simp add: completes_def)
    qed
  qed
qed

lemma niriss_completes: "completes [IdInt 0, IdInt 1] niriss_call"
proof -
  have "all_equal (single_lengths niriss_call)"
    using all_equal_replicate [of 5 2] by (simp add: niriss_lengths numeral_eq_Suc)
  with niriss_keys show ?thesis
    by (simp add: completes_def write_lines_single [OF niriss_instrument niriss_iteration(1)])
qed

lemma niriss_i_observations: "i_observations (obs_results niriss_call) = [0, 2]"
  by (simp add: i_observations_def niriss_selected)

lemma rows_nonempty: "k \<in> ObservationID ` set tbl \<Longrightarrow> rows k tbl \<noteq> []"
  by (auto simp: rows_def filter_empty_conv)

lemma catalog_lines_header: "filter is_catalog_line (obs_header n name) = []"
  by (simp add: obs_header_def is_catalog_line_def observation_line_def kv_def)

lemma catalog_lines_single_filter:
  "filter is_catalog_line (single_filter filt cat) = [kv ''  '' ''PointSourceCatalog'' cat]"
  by (simp add: single_filter_def default_lines_def is_catalog_line_def kv_def)

lemma catalog_lines_single:
  "filter is_catalog_line (single_lines c cats i) =
     replicate (length (rows (IdInt (int i)) (xml_table c)))
       (kv ''  '' ''PointSourceCatalog'' (cats ! i))"
proof -
  have "filter is_catalog_line (concat (map (\<lambda>e. single_filter (g e) cat) es)) =
      replicate (length es) (kv ''  '' ''PointSourceCatalog'' cat)"
    for es :: "exposure list" and g cat
    by (induction es) (simp_all add: catalog_lines_single_filter)
  then show ?thesis
    by (simp add: single_lines_def catalog_lines_header comp_def)
qed

lemma write_lines_order:
  assumes "set_iteration ks (map ObservationID (xml_table c))"
    and "set_iteration ks' (map ObservationID (xml_table c))"
  shows "snd (write_lines ks c) = snd (write_lines ks' c)"
proof (cases c rule: instrument_cases)
  case many
  then show ?thesis by (simp add: write_lines_many)
next
  case none
  then show ?thesis by (simp add: write_lines_empty)
next
  case (one u)
  consider (single) "u = ''NIRISS''"
    | (dichroic) sw lw where "u = ''NIRCAM'' \<or> u = ''WFSC''"
        "ps_cat_sw c = Some sw" "ps_cat_lw c = Some lw"
    | (missing) "u = ''NIRCAM'' \<or> u = ''WFSC''" "ps_cat_sw c = None \<or> ps_cat_lw c = None"
    | (other) "u \<notin> {''NIRCAM'', ''WFSC'', ''NIRISS''}"
    by (cases "ps_cat_sw c"; cases "ps_cat_lw c") auto
  then show ?thesis
  proof cases
    case single
    with one have i: "Instrument ` set (xml_table c) = {''NIRISS''}" by simp
    show ?thesis
      by (simp add: write_lines_single [OF i assms(1)] write_lines_single [OF i assms(2)])
  next
    case dichroic
    from one dichroic(1) show ?thesis
      by (simp add: write_lines_dichroic [OF _ _ assms(1) dichroic(2,3)]
            write_lines_dichroic [OF _ _ assms(2) dichroic(2,3)])
  next
    case missing
    from dispatch_dichroic_none [OF one missing] show ?thesis
      by (simp add: write_lines_dispatch_error)
  next
    case other
    from write_lines_other [OF one other] show ?thesis by simp
  qed
qed

section \<open>Facts about the printed notes\<close>

lemma write_yaml_prints:
  "\<exists>extra. fst (write_yaml ks c fs) = fst (dispatch ks c) @ extra \<and>
      (\<forall>k. MultipleFilters k \<notin> set extra)"
  by (cases "dispatch ks c")
     (auto simp: write_yaml_def write_lines_def check_lengths_def
        split: prod.splits sum.splits option.splits if_splits)

lemma dispatch_notes_dichroic:
  assumes "Instrument ` set (xml_table c) = {u}"
    and "u = ''NIRCAM'' \<or> u = ''WFSC''"
    and "distinct ks"
  shows "fst (dispatch ks c) = Summary (length (xml_table c)) # notes_of ShortFilter ks (xml_table c)"
proof -
  from assms(3) have g: "group_dichroic ks (map ObservationID (xml_table c))
         (map ShortFilter (xml_table c)) (map LongFilter (xml_table c)) ([], [], []) =
       (notes_of ShortFilter ks (xml_table c), groups_of ShortFilter ks (xml_table c),
        groups_of LongFilter ks (xml_table c))"
    by (simp add: group_dichroic_eq notes_of_def groups_of_def)
  from assms(2) show ?thesis
    by (auto simp: dispatch_def Let_def used_single [OF assms(1)] py_index_def g
          split: option.splits)
qed

lemma note_in_notes_of:
  "MultipleFilters k \<in> set (notes_of f ks tbl) \<longleftrightarrow> k \<in> set ks \<and> 1 < len_set (map f (rows k tbl))"
  by (auto simp: notes_of_def)

lemma nircam_keys:
  "\<forall>i < num_obs nircam_call.
     IdInt (int (i_observations (obs_results nircam_call) ! i + 1))
       \<in> ObservationID ` set (xml_table nircam_call)"
  by (simp add: nircam_num_obs i_observations_def nircam_selected)
     (simp add: nircam_call_def row_def)

lemma nircam_rows:
  "filter (\<lambda>e. ObservationID e = IdInt 1) (xml_table nircam_call) = xml_table nircam_call"
  by (simp add: nircam_call_def row_def)

lemma notes_are_notes: "filter (\<lambda>n. \<not> is_note n) (notes_of f ks tbl) = []"
  by (induction ks) (auto simp: notes_of_def is_note_def)

lemma is_note_simps:
  "\<not> is_note (Summary n)" "\<not> is_note (ParamLengths ls)" "\<not> is_note (Success n p)"
  "is_note (MultipleFilters k)"
  by (simp_all add: is_note_def)

lemma same_but_filters_facts:
  assumes "same_but_filters c c'"
  shows "num_obs c' = num_obs c"
    and "num_groups c' = num_groups c"
    and "single_lengths c' = single_lengths c"
    and "dichroic_lengths c' sw lw = dichroic_lengths c sw lw"
    and "Instrument ` set (xml_table c') = Instrument ` set (xml_table c)"
    and "ObservationID ` set (xml_table c') = ObservationID ` set (xml_table c)"
    and "length (xml_table c') = length (xml_table c)"
    and "obs_results c' = obs_results c"
    and "yaml_file c' = yaml_file c"
    and "ps_cat_sw c' = ps_cat_sw c"
    and "ps_cat_lw c' = ps_cat_lw c"
    and "map ObservationID (xml_table c') = map ObservationID (xml_table c)"
proof -
  from assms have o: "obs_results c' = obs_results c" and y: "yaml_file c' = yaml_file c"
    and f: "catalog_files c' = catalog_files c"
    and p: "ps_cat_sw c' = ps_cat_sw c" "ps_cat_lw c' = ps_cat_lw c"
    and i: "map Instrument (xml_table c') = map Instrument (xml_table c)"
    and k: "map ObservationID (xml_table c') = map ObservationID (xml_table c)"
    by (simp_all add: same_but_filters_def)
  show n: "num_obs c' = num_obs c" by (simp add: num_obs_def o)
  show g: "num_groups c' = num_groups c" by (simp add: num_groups_def k)
  show "single_lengths c' = single_lengths c"
    by (simp add: single_lengths_def single_cats_def n g f)
  show "dichroic_lengths c' sw lw = dichroic_lengths c sw lw"
    by (simp add: dichroic_lengths_def n g)
  from i have "set (map Instrument (xml_table c')) = set (map Instrument (xml_table c))"
    by simp
  then show "Instrument ` set (xml_table c') = Instrument ` set (xml_table c)" by simp
  from k have "set (map ObservationID (xml_table c')) = set (map ObservationID (xml_table c))"
    by simp
  then show "ObservationID ` set (xml_table c') = ObservationID ` set (xml_table c)" by simp
  from i have "length (map Instrument (xml_table c')) = length (map Instrument (xml_table c))"
    by simp
  then show "length (xml_table c') = length (xml_table c)" by simp
  show "obs_results c' = obs_results c" "yaml_file c' = yaml_file c"
    "ps_cat_sw c' = ps_cat_sw c" "ps_cat_lw c' = ps_cat_lw c"
    "map ObservationID (xml_table c') = map ObservationID (xml_table c)"
    by (rule o y p k)+
qed

lemma write_lines_missing:
  assumes "Instrument ` set (xml_table c) = {u}"
    and "u = ''NIRCAM'' \<or> u = ''WFSC''"
    and "distinct ks"
    and "ps_cat_sw c = None \<or> ps_cat_lw c = None"
  shows "write_lines ks c =
     (Summary (length (xml_table c)) # notes_of ShortFilter ks (xml_table c), Inl TypeError)"
proof -
  have "dispatch ks c =
     (Summary (length (xml_table c)) # notes_of ShortFilter ks (xml_table c), Inl TypeError)"
    using dispatch_notes_dichroic [OF assms(1,2,3)] dispatch_dichroic_none [OF assms(1,2,4), of ks]
    by (cases "dispatch ks c") simp
  then show ?thesis by (simp add: write_lines_def)
qed

text \<open>
  The prints other than the notes, and whether and how the building of the lines
  fails, as computed from what two calls with \<open>same_but_filters\<close> share.
\<close>

lemma write_lines_filters:
  assumes "set_iteration ks (map ObservationID (xml_table c))"
    and "same_but_filters c c'"
  shows "filter (\<lambda>n. \<not> is_note n) (fst (write_lines ks c')) =
           filter (\<lambda>n. \<not> is_note n) (fst (write_lines ks c)) \<and>
         map_sum id (\<lambda>w. ()) (snd (write_lines ks c')) =
           map_sum id (\<lambda>w. ()) (snd (write_lines ks c))"
proof -
  note s = same_but_filters_facts [OF assms(2)]
  from assms(1) have it': "set_iteration ks (map ObservationID (xml_table c'))"
    by (simp add: s)
  from assms(1) have d: "distinct ks" by (simp add: set_iteration_def)
  show ?thesis
  proof (cases c rule: instrument_cases)
    case many
    then have "1 < card (Instrument ` set (xml_table c'))" by (simp add: s)
    with many show ?thesis by (simp add: write_lines_many s)
  next
    case none
    with s(7) have "xml_table c' = []" by simp
    with none show ?thesis by (simp add: write_lines_empty)
  next
    case (one u)
    then have one': "Instrument ` set (xml_table c') = {u}" by (simp add: s)
    consider (single) "u = ''NIRISS''"
      | (dichroic) sw lw where "u = ''NIRCAM'' \<or> u = ''WFSC''"
          "ps_cat_sw c = Some sw" "ps_cat_lw c = Some lw"
      | (missing) "u = ''NIRCAM'' \<or> u = ''WFSC''" "ps_cat_sw c = None \<or> ps_cat_lw c = None"
      | (other) "u \<notin> {''NIRCAM'', ''WFSC'', ''NIRISS''}"
      by (cases "ps_cat_sw c"; cases "ps_cat_lw c") auto
    then show ?thesis
    proof cases
      case single
      with one one' have i: "Instrument ` set (xml_table c) = {''NIRISS''}"
        and i': "Instrument ` set (xml_table c') = {''NIRISS''}" by simp_all
      show ?thesis
        by (auto simp: write_lines_single [OF i assms(1)] write_lines_single [OF i' it']
              s notes_are_notes is_note_simps)
    next
      case dichroic
      from dichroic(2,3) have ps': "ps_cat_sw c' = Some sw" "ps_cat_lw c' = Some lw"
        by (simp_all add: s)
      show ?thesis
        by (auto simp: write_lines_dichroic [OF one dichroic(1) assms(1) dichroic(2,3)]
              write_lines_dichroic [OF one' dichroic(1) it' ps']
              s notes_are_notes is_note_simps)
    next
      case missing
      from missing(2) have m': "ps_cat_sw c' = None \<or> ps_cat_lw c' = None" by (simp add: s)
      show ?thesis
        by (simp add: write_lines_missing [OF one missing(1) d missing(2)]
              write_lines_missing [OF one' missing(1) d m'] s notes_are_notes is_note_simps)
    next
      case other
      show ?thesis
        by (simp add: write_lines_other [OF one other] write_lines_other [OF one' other] s)
    qed
  qed
qed

lemma write_yaml_parts:
  "fst (write_yaml ks c fs) =
     fst (write_lines ks c) @
     (case snd (write_lines ks c) of Inl e \<Rightarrow> [] | Inr w \<Rightarrow> [Success (num_obs c) (yaml_file c)])"
  "fst (snd (write_yaml ks c fs)) = map_sum id (\<lambda>w. ()) (snd (write_lines ks c))"
  by (cases "write_lines ks c"; simp add: write_yaml_def num_obs_def split: sum.splits)+

lemma control_flow_filters:
  assumes "set_iteration ks (map ObservationID (xml_table c))"
    and "same_but_filters c c'"
  shows "fst (snd (write_yaml ks c' fs)) = fst (snd (write_yaml ks c fs)) \<and>
         filter (\<lambda>n. \<not> is_note n) (fst (write_yaml ks c' fs)) =
           filter (\<lambda>n. \<not> is_note n) (fst (write_yaml ks c fs))"
proof -
  note s = same_but_filters_facts [OF assms(2)]
  from write_lines_filters [OF assms]
  have n: "filter (\<lambda>n. \<not> is_note n) (fst (write_lines ks c')) =
           filter (\<lambda>n. \<not> is_note n) (fst (write_lines ks c))"
    and r: "map_sum id (\<lambda>w. ()) (snd (write_lines ks c')) =
           map_sum id (\<lambda>w. ()) (snd (write_lines ks c))"
    by simp_all
  from n r show ?thesis
    by (cases "snd (write_lines ks c')"; cases "snd (write_lines ks c)")
       (simp_all add: write_yaml_parts s is_note_simps)
qed

text \<open>The lines of a completed conversion carry every filter of every group looked up.\<close>

lemma written_full_groups:
  assumes "Instrument ` set (xml_table c) = {u}"
    and "set_iteration ks (map ObservationID (xml_table c))"
    and "completes ks c"
  shows "(u = ''NIRISS'' \<longrightarrow>
            written ks c =
              preamble @ concat (map (single_lines c (single_cats c)) [0..<num_obs c])) \<and>
         (u = ''NIRCAM'' \<or> u = ''WFSC'' \<longrightarrow>
            (\<exists>sw lw. ps_cat_sw c = Some sw \<and> ps_cat_lw c = Some lw \<and>
               written ks c =
                 preamble @ concat (map (dichroic_lines c sw lw) [0..<num_obs c])))"
  using assms(2,3)
proof (cases rule: completes_cases)
  case (dichroic u' sw lw)
  with assms(1) have "u = u'" by simp
  with dichroic show ?thesis by auto
next
  case single
  with assms(1) have "u = ''NIRISS''" by simp
  with single show ?thesis by simp
qed

section \<open>Tables whose instrument is FGS\<close>

text \<open>
  The branch of line 132 tests for \<open>NIRISS\<close> alone, while the selection of line 61
  and the rendering branch of line 222 accept \<open>FGS\<close> too.  A table whose only
  instrument is \<open>FGS\<close> enters no branch: no filters are grouped, no catalog is
  repeated, \<open>all_param_lengths\<close> is not bound, and the length check fails on
  reading it.
\<close>

lemma fgs_dispatch:
  assumes "Instrument ` set (xml_table c) = {''FGS''}"
  shows "dispatch ks c = ([Summary (length (xml_table c))], Inr (NoLocals, None))"
  by (rule dispatch_other [OF assms]) simp

lemma fgs_unbound:
  assumes "Instrument ` set (xml_table c) = {''FGS''}"
  shows "write_yaml ks c fs = ([Summary (length (xml_table c))], Inl UnboundLocalError, fs)"
  by (simp add: write_yaml_def write_lines_def check_lengths_def fgs_dispatch [OF assms])

lemma fgs_three_instrument:
  "Instrument ` set (xml_table fgs_three_observations) = {''FGS''}"
  by (simp add: fgs_three_observations_def row_def)

lemma fgs_three_num_obs: "num_obs fgs_three_observations = 3"
  by (simp add: num_obs_def observations_def selected_def fgs_three_observations_def node_def
        supported_instruments_def enumerate_eq_zip upt_rec)

lemma fgs_three_num_groups: "num_groups fgs_three_observations = 3"
  by (simp add: num_groups_def len_set_def fgs_three_observations_def row_def)

lemma fgs_three_table: "length (xml_table fgs_three_observations) = 3"
  by (simp add: fgs_three_observations_def)

lemma fgs_two_catalogs_same:
  "xml_table fgs_two_catalogs = xml_table fgs_three_observations"
  "num_obs fgs_two_catalogs = num_obs fgs_three_observations"
  "num_groups fgs_two_catalogs = num_groups fgs_three_observations"
  "catalog_files fgs_two_catalogs = CatList [''a.cat'', ''b.cat'']"
  by (simp_all add: fgs_two_catalogs_def num_obs_def num_groups_def)

section \<open>Observation names: properties\<close>

lemma str_contains_sublist: "str_contains sub s \<longleftrightarrow> sublist sub s"
  by (induction s) (auto simp: sublist_Cons_right)

lemma str_contains_close: "str_contains '')'' s \<longleftrightarrow> CHR '')'' \<in> set s"
  by (induction s) auto

lemma spec_name_no_open: "\<not> str_contains '' ('' l \<Longrightarrow> spec_name l = l"
  by (induction l) auto

lemma spec_name_no_close: "CHR '')'' \<notin> set l \<Longrightarrow> spec_name l = l"
  by (induction l) (auto dest: in_set_dropD)

text \<open>The specification's rule does cut at the first parenthetical segment.\<close>

lemma spec_name_parenthetical:
  "\<not> str_contains '' ('' pre \<Longrightarrow> spec_name (pre @ '' ('' @ mid @ '')'' @ rest) = pre"
proof (induction pre)
  case Nil
  then show ?case by simp
next
  case (Cons c pre)
  then have IH: "spec_name (pre @ '' ('' @ mid @ '')'' @ rest) = pre" by auto
  from Cons.prems have "\<not> prefix '' ('' ((c # pre) @ '' ('' @ mid @ '')'' @ rest)"
    by (cases pre) auto
  with IH show ?case by auto
qed

lemma re_split_head_spec:
  "str_contains '' ('' l \<Longrightarrow> CHR '')'' \<in> set l \<Longrightarrow> \<not> close_before_first_open l \<Longrightarrow>
   re_split_head l = spec_name l"
proof (induction l)
  case Nil
  then show ?case by simp
next
  case (Cons c cs)
  show ?case
  proof (cases "prefix '' ('' (c # cs)")
    case True
    then obtain r where r: "c = CHR '' ''" "cs = CHR ''('' # r"
      by (cases cs) auto
    with Cons.prems(2) have "CHR '')'' \<in> set (drop 1 cs)" by auto
    with True show ?thesis by simp
  next
    case False
    with Cons.prems(1) have open_cs: "str_contains '' ('' cs" by auto
    with Cons.prems(3) False have c: "c \<noteq> CHR '')''" by auto
    with Cons.prems False have "CHR '')'' \<in> set cs" "\<not> close_before_first_open cs" by auto
    with open_cs have "re_split_head cs = spec_name cs" by (rule Cons.IH)
    with False c show ?thesis by auto
  qed
qed

text \<open>
  The condition is exact: with a closing parenthesis before the first space and
  opening parenthesis, the name is cut at that closing parenthesis and is shorter than
  what the specification's rule gives.
\<close>

lemma close_before_first_open_both:
  "close_before_first_open l \<Longrightarrow> str_contains '' ('' l \<and> CHR '')'' \<in> set l"
  by (induction l) (auto split: if_splits)

lemma re_split_head_shorter:
  "close_before_first_open l \<Longrightarrow> length (re_split_head l) < length (spec_name l)"
  by (induction l) (auto split: if_splits)

lemma obs_name_differs:
  assumes "close_before_first_open label"
  shows "obs_name label \<noteq> spec_name label"
proof -
  from assms have "obs_name label = re_split_head label"
    using close_before_first_open_both [of label] by (simp add: obs_name_def str_contains_close)
  with re_split_head_shorter [OF assms] show ?thesis by auto
qed

text \<open>
  Claim C7, as amended.  The name of a kept observation is \<open>obs_name\<close> of its label.
  Provided no closing parenthesis comes before the first space and opening parenthesis
  of the label, the name is the label cut at the start of its first parenthetical
  segment, and the label itself when it has no such segment.
\<close>

theorem obs_name_truncates:
  assumes "\<not> close_before_first_open label"
  shows "obs_name label = spec_name label"
proof (cases "str_contains '' ('' label \<and> CHR '')'' \<in> set label")
  case True
  with assms show ?thesis
    by (simp add: obs_name_def re_split_head_spec str_contains_close)
next
  case False
  then have "spec_name label = label"
    using spec_name_no_open spec_name_no_close by blast
  with False show ?thesis
    by (auto simp: obs_name_def str_contains_close)
qed

theorem obs_name_truncates_witness:
  "\<not> close_before_first_open ''OTE-01 (Commissioning)'' \<and>
   obs_name ''OTE-01 (Commissioning)'' = ''OTE-01'' \<and>
   spec_name ''OTE-01 (Commissioning)'' = ''OTE-01'' \<and>
   \<not> close_before_first_open ''x (y) z (w)'' \<and>
   obs_name ''x (y) z (w)'' = ''x'' \<and>
   spec_name ''x (y) z (w)'' = ''x'' \<and>
   \<not> close_before_first_open ''NIRISS-02'' \<and>
   obs_name ''NIRISS-02'' = ''NIRISS-02''"
  using obs_name_truncates [of "''OTE-01 (Commissioning)''"]
    obs_name_truncates [of "''x (y) z (w)''"] obs_name_truncates [of "''NIRISS-02''"]
  by simp

text \<open>
  Claim C7 as stated fails on a label with a closing parenthesis before its
  parenthetical segment: the pattern also matches that closing parenthesis, and the
  name is cut there.
\<close>

theorem obs_name_counterexample:
  "obs_name ''a) b (c)'' = ''a'' \<and> spec_name ''a) b (c)'' = ''a) b'' \<and>
   obs_name ''a) b (c)'' \<noteq> spec_name ''a) b (c)''"
  by (simp add: obs_name_def)

section \<open>The single-channel schema\<close>

text \<open>
  What the branch for NIRISS does.  When the lengths compared by the check agree and
  every position \<open>0 \<le> i < num_obs\<close> among the selected observations is one of the
  observation ids, \<open>write_yaml\<close> completes and writes, after the three comment
  lines, one block per selected observation in the single-channel layout: the header
  with the observation number and name, then for each filter of the group twelve
  lines with that filter, the observation's catalog and the background rate 0.5.
\<close>

lemma niriss_branch_completes:
  assumes "Instrument ` set (xml_table c) = {''NIRISS''}"
    and "set_iteration ks (map ObservationID (xml_table c))"
    and "all_equal (single_lengths c)"
    and "\<forall>i < num_obs c. IdInt (int i) \<in> ObservationID ` set (xml_table c)"
  shows "write_yaml ks c fs =
     (Summary (length (xml_table c)) # notes_of PupilWheel ks (xml_table c)
        @ [Success (num_obs c) (yaml_file c)],
      Inr (),
      fs(yaml_file c \<mapsto>
         concat (preamble @ concat (map (\<lambda>i.
           obs_header (i_observations (obs_results c) ! i + 1) (obs_names (obs_results c) ! i) @
           concat (map (\<lambda>e. single_filter (PupilWheel e) (single_cats c ! i))
                       (filter (\<lambda>e. ObservationID e = IdInt (int i)) (xml_table c))))
           [0..<num_obs c]))))"
proof -
  have "single_lines c (single_cats c) =
      (\<lambda>i. obs_header (i_observations (obs_results c) ! i + 1) (obs_names (obs_results c) ! i) @
           concat (map (\<lambda>e. single_filter (PupilWheel e) (single_cats c ! i))
                       (filter (\<lambda>e. ObservationID e = IdInt (int i)) (xml_table c))))"
    by (rule ext) (simp add: single_lines_def rows_def comp_def)
  with assms(3,4) show ?thesis
    by (simp add: write_yaml_def write_lines_single [OF assms(1,2)] num_obs_def)
qed

lemma niriss_call_written:
  "Instrument ` set (xml_table niriss_call) = {''NIRISS''} \<and>
   set_iteration [IdInt 1, IdInt 0] (map ObservationID (xml_table niriss_call)) \<and>
   all_equal (single_lengths niriss_call) \<and>
   num_obs niriss_call = 2 \<and>
   IdInt 0 \<in> ObservationID ` set (xml_table niriss_call) \<and>
   IdInt 1 \<in> ObservationID ` set (xml_table niriss_call) \<and>
   fst (write_yaml [IdInt 1, IdInt 0] niriss_call Map.empty) =
     [Summary 3, MultipleFilters (IdInt 0), Success 2 ''out.yaml''] \<and>
   fst (snd (write_yaml [IdInt 1, IdInt 0] niriss_call Map.empty)) = Inr ()"
proof -
  have h3: "all_equal (single_lengths niriss_call)"
    using all_equal_replicate [of 5 2] by (simp add: niriss_lengths numeral_eq_Suc)
  have n: "notes_of PupilWheel [IdInt 1, IdInt 0] (xml_table niriss_call) =
      [MultipleFilters (IdInt 0)]"
    by (simp add: notes_of_def rows_def len_set_def niriss_call_def row_def)
  from niriss_branch_completes [OF niriss_instrument niriss_iteration(2) h3 niriss_keys,
      of Map.empty]
  show ?thesis
    by (simp add: niriss_instrument niriss_iteration h3 n niriss_num_obs)
      (simp add: niriss_call_def row_def)
qed

text \<open>
  Claim C1.  The claim promises the same for a table whose only instrument is FGS.
  The code does not do it: for every such table no branch of the dispatch is entered,
  nothing is bound, and \<open>write_yaml\<close> ends in \<open>UnboundLocalError\<close> at the length
  check, having printed only the summary and written no file.  The conversion of an
  FGS proposal never completes.
\<close>

theorem fgs_never_completes:
  assumes "Instrument ` set (xml_table c) = {''FGS''}"
  shows "snd (dispatch ks c) = Inr (NoLocals, None) \<and>
         write_yaml ks c fs = ([Summary (length (xml_table c))], Inl UnboundLocalError, fs) \<and>
         \<not> completes ks c"
proof -
  have d: "dispatch ks c = ([Summary (length (xml_table c))], Inr (NoLocals, None))"
    by (rule fgs_dispatch [OF assms])
  then have "\<not> completes ks c"
    by (simp add: completes_def write_lines_def check_lengths_def)
  with d fgs_unbound [OF assms] show ?thesis by simp
qed

text \<open>
  The FGS call of the witness meets every condition under which the NIRISS branch
  completes: one selected observation, one catalog, one group, under the id 0.
\<close>

theorem fgs_never_completes_witness:
  "Instrument ` set (xml_table fgs_call) = {''FGS''} \<and>
   single_lengths fgs_call = [1, 1, 1, 1, 1] \<and>
   IdInt 0 \<in> ObservationID ` set (xml_table fgs_call) \<and>
   write_yaml [IdInt 0] fgs_call Map.empty = ([Summary 1], Inl UnboundLocalError, Map.empty) \<and>
   \<not> completes [IdInt 0] fgs_call"
proof -
  have i: "Instrument ` set (xml_table fgs_call) = {''FGS''}"
    by (simp add: fgs_call_def row_def)
  have n: "num_obs fgs_call = 1"
    by (simp add: num_obs_def observations_def selected_def fgs_call_def node_def
          supported_instruments_def)
  have l: "single_lengths fgs_call = [1, 1, 1, 1, 1]"
    by (simp add: single_lengths_def n single_cats_def broadcast_def catalog_list_def
          num_groups_def len_set_def)
       (simp add: fgs_call_def row_def)
  have k: "IdInt 0 \<in> ObservationID ` set (xml_table fgs_call)"
    by (simp add: fgs_call_def row_def)
  have t: "length (xml_table fgs_call) = 1"
    by (simp add: fgs_call_def)
  from fgs_never_completes [OF i, of "[IdInt 0]" Map.empty] i l k t show ?thesis
    by simp
qed

section \<open>Accesses after the length check\<close>

text \<open>
  Claim C2, as amended.  When the lengths compared for the instrument's branch are all
  equal, every access by position in the rendering loop is in range: the position
  index, the name and the catalog entry (or the two catalog entries) of each selected
  observation.  The lookup of the filter group is by key and is not covered by the
  check: the lines are built exactly when the key of every selected observation,
  \<open>i_observations[i_obs] + 1\<close> in the NIRCAM/WFSC branch and \<open>i_obs\<close> in the NIRISS
  branch, is one of the observation ids of the table, and a \<open>KeyError\<close> is raised
  otherwise.
\<close>

theorem validated_accesses:
  assumes "Instrument ` set (xml_table c) = {u}"
    and "set_iteration ks (map ObservationID (xml_table c))"
    and "schema_lengths c u = Some ls"
    and "all_equal ls"
  shows "(\<forall>i < num_obs c.
            \<not> isl (py_index (i_observations (obs_results c)) i) \<and>
            \<not> isl (py_index (obs_names (obs_results c)) i) \<and>
            (if u = ''NIRISS'' then \<not> isl (py_index (single_cats c) i)
             else \<not> isl (ps_cat_index (ps_cat_sw c) i) \<and>
                  \<not> isl (ps_cat_index (ps_cat_lw c) i))) \<and>
         (completes ks c \<longleftrightarrow>
            (\<forall>i < num_obs c. lookup_key c u i \<in> ObservationID ` set (xml_table c))) \<and>
         (\<not> completes ks c \<longrightarrow> snd (write_lines ks c) = Inl KeyError)"
proof (cases "u = ''NIRISS''")
  case True
  with assms(3) have ls: "ls = single_lengths c"
    by (simp add: schema_lengths_def)
  from assms(1) True have i: "Instrument ` set (xml_table c) = {''NIRISS''}" by simp
  from assms(4) have len: "length (single_cats c) = num_obs c"
    unfolding ls by (rule all_equalD) (simp_all add: single_lengths_def)
  from assms(4) True len show ?thesis
    by (simp add: completes_def write_lines_single [OF i assms(2)] ls py_index_def
          selected_lengths num_obs_def [symmetric] lookup_key_def)
next
  case False
  with assms(3) obtain sw lw where u: "u = ''NIRCAM'' \<or> u = ''WFSC''"
    and ps: "ps_cat_sw c = Some sw" "ps_cat_lw c = Some lw"
    and ls: "ls = dichroic_lengths c sw lw"
    by (auto simp: schema_lengths_def split: if_splits option.splits)
  from assms(4) have len: "length sw = num_obs c" "length lw = num_obs c"
    unfolding ls by (rule all_equalD; simp add: dichroic_lengths_def)+
  from assms(4) False len show ?thesis
    by (simp add: completes_def write_lines_dichroic [OF assms(1) u assms(2) ps] ls py_index_def
          selected_lengths num_obs_def [symmetric] lookup_key_def ps_cat_index_def ps)
qed

theorem validated_accesses_witness:
  "Instrument ` set (xml_table nircam_call) = {''NIRCAM''} \<and>
   set_iteration [IdInt 1] (map ObservationID (xml_table nircam_call)) \<and>
   schema_lengths nircam_call ''NIRCAM'' = Some [1, 1, 1, 1, 1, 1, 1] \<and>
   all_equal [1, 1, 1, 1, 1, 1, 1] \<and>
   num_obs nircam_call = 1 \<and>
   lookup_key nircam_call ''NIRCAM'' 0 \<in> ObservationID ` set (xml_table nircam_call) \<and>
   completes [IdInt 1] nircam_call"
proof -
  have l: "schema_lengths nircam_call ''NIRCAM'' = Some [1, 1, 1, 1, 1, 1, 1]"
    by (simp add: schema_lengths_def nircam_catalogs nircam_lengths)
  have a: "all_equal [1, 1, 1, 1, 1, 1, 1]"
    using all_equal_replicate [of 7 1] by (simp add: numeral_eq_Suc)
  have k: "\<forall>i < num_obs nircam_call.
      lookup_key nircam_call ''NIRCAM'' i \<in> ObservationID ` set (xml_table nircam_call)"
    by (simp add: nircam_num_obs lookup_key_def i_observations_def nircam_selected)
       (simp add: nircam_call_def row_def)
  from k have k0:
    "lookup_key nircam_call ''NIRCAM'' 0 \<in> ObservationID ` set (xml_table nircam_call)"
    by (simp add: nircam_num_obs)
  from validated_accesses [OF nircam_instrument nircam_iteration l a] k k0
    nircam_instrument nircam_iteration l a nircam_num_obs
  show ?thesis by blast
qed

text \<open>
  Claim C2 as stated fails on a NIRISS proposal with one observation whose exposures
  carry the id 1: all lengths are 1 and the check passes, and the lookup under the
  position 0 raises \<open>KeyError\<close>.
\<close>

theorem validated_accesses_counterexample:
  "Instrument ` set (xml_table niriss_one_based) = {''NIRISS''} \<and>
   all_equal (single_lengths niriss_one_based) \<and>
   write_yaml [IdInt 1] niriss_one_based Map.empty = ([Summary 1], Inl KeyError, Map.empty)"
proof -
  have a: "all_equal (single_lengths niriss_one_based)"
    using all_equal_replicate [of 5 1] by (simp add: one_based_lengths numeral_eq_Suc)
  have k: "\<not> (\<forall>i < num_obs niriss_one_based.
      IdInt (int i) \<in> ObservationID ` set (xml_table niriss_one_based))"
    by (simp add: one_based_num_obs) (simp add: niriss_one_based_def row_def)
  have n: "notes_of PupilWheel [IdInt 1] (xml_table niriss_one_based) = []"
    by (simp add: notes_of_def rows_def len_set_def niriss_one_based_def row_def)
  have t: "length (xml_table niriss_one_based) = 1"
    by (simp add: niriss_one_based_def)
  from a k show ?thesis
    by (simp add: write_yaml_def write_lines_single [OF one_based_instrument one_based_iteration]
          one_based_instrument n t)
qed

section \<open>The length check\<close>

text \<open>
  The check in the branches that exist.  When the lengths compared for NIRCAM or WFSC
  (both catalog lists given) or for NIRISS are not all equal, \<open>write_yaml\<close> prints
  the list of lengths and raises \<open>ValueError\<close>, and the files are unchanged.
\<close>

lemma length_mismatch_rejected:
  assumes "Instrument ` set (xml_table c) = {u}"
    and "set_iteration ks (map ObservationID (xml_table c))"
    and "schema_lengths c u = Some ls"
    and "\<not> all_equal ls"
  shows "\<exists>out. write_yaml ks c fs = (out @ [ParamLengths ls], Inl ValueError, fs)"
proof (cases "u = ''NIRISS''")
  case True
  with assms(3) have ls: "ls = single_lengths c"
    by (simp add: schema_lengths_def)
  from assms(1) True have i: "Instrument ` set (xml_table c) = {''NIRISS''}" by simp
  from assms(4) have "write_yaml ks c fs =
      ((Summary (length (xml_table c)) # notes_of PupilWheel ks (xml_table c))
         @ [ParamLengths ls], Inl ValueError, fs)"
    by (simp add: write_yaml_def write_lines_single [OF i assms(2)] ls)
  then show ?thesis by blast
next
  case False
  with assms(3) obtain sw lw where u: "u = ''NIRCAM'' \<or> u = ''WFSC''"
    and ps: "ps_cat_sw c = Some sw" "ps_cat_lw c = Some lw"
    and ls: "ls = dichroic_lengths c sw lw"
    by (auto simp: schema_lengths_def split: if_splits option.splits)
  from assms(4) have "write_yaml ks c fs =
      ((Summary (length (xml_table c)) # notes_of ShortFilter ks (xml_table c))
         @ [ParamLengths ls], Inl ValueError, fs)"
    by (simp add: write_yaml_def write_lines_dichroic [OF assms(1) u assms(2) ps] ls)
  then show ?thesis by blast
qed

lemma niriss_three_catalogs_rejected:
  "Instrument ` set (xml_table niriss_three_catalogs) = {''NIRISS''} \<and>
   set_iteration [IdInt 0, IdInt 1] (map ObservationID (xml_table niriss_three_catalogs)) \<and>
   schema_lengths niriss_three_catalogs ''NIRISS'' = Some [3, 2, 2, 2, 2] \<and>
   \<not> all_equal [3, 2, 2, 2, 2] \<and>
   (\<exists>out. write_yaml [IdInt 0, IdInt 1] niriss_three_catalogs Map.empty =
      (out @ [ParamLengths [3, 2, 2, 2, 2]], Inl ValueError, Map.empty))"
proof -
  have i: "Instrument ` set (xml_table niriss_three_catalogs) = {''NIRISS''}"
    by (simp add: three_catalogs_same niriss_instrument)
  have k: "set_iteration [IdInt 0, IdInt 1] (map ObservationID (xml_table niriss_three_catalogs))"
    by (simp add: three_catalogs_same niriss_iteration)
  have l: "schema_lengths niriss_three_catalogs ''NIRISS'' = Some [3, 2, 2, 2, 2]"
    by (simp add: schema_lengths_def three_catalogs_lengths)
  have n: "\<not> all_equal [3, 2, 2, 2, 2]"
    by (simp add: all_equal_def)
  from length_mismatch_rejected [OF i k l n, of Map.empty] i k l n show ?thesis
    by blast
qed

text \<open>
  Claim C3.  The claim promises the same for every schema, the single-channel schema
  of an FGS table included.  The code does not do it there: with two catalog paths
  for three selected FGS observations the lengths of the single-channel schema are
  2, 3, 3, 3, 3, and \<open>write_yaml\<close> raises \<open>UnboundLocalError\<close> instead of
  \<open>ValueError\<close>, without printing the lengths.  No file is written.
\<close>

theorem fgs_length_mismatch:
  "Instrument ` set (xml_table fgs_two_catalogs) = {''FGS''} \<and>
   single_lengths fgs_two_catalogs = [2, 3, 3, 3, 3] \<and>
   write_yaml [IdInt 0, IdInt 1, IdInt 2] fgs_two_catalogs Map.empty =
     ([Summary 3], Inl UnboundLocalError, Map.empty)"
proof -
  have i: "Instrument ` set (xml_table fgs_two_catalogs) = {''FGS''}"
    by (simp add: fgs_two_catalogs_same fgs_three_instrument)
  have l: "single_lengths fgs_two_catalogs = [2, 3, 3, 3, 3]"
    by (simp add: single_lengths_def fgs_two_catalogs_same fgs_three_num_obs
          fgs_three_num_groups single_cats_def broadcast_def catalog_list_def)
  from fgs_unbound [OF i] i l show ?thesis
    by (simp add: fgs_two_catalogs_same fgs_three_table)
qed

section \<open>Several instruments in one proposal\<close>

text \<open>
  Claim C4.  When the exposure table holds more than one distinct instrument,
  \<open>write_yaml\<close> raises \<open>NotImplementedError\<close>.  Only the summary of the table has
  been printed by then: the result does not depend on the order \<open>ks\<close> in which the
  observation ids would be visited, no note of the grouping loop is printed, and the
  files are unchanged.
\<close>

theorem several_instruments:
  assumes "card (Instrument ` set (xml_table c)) > 1"
  shows "write_yaml ks c fs = ([Summary (length (xml_table c))], Inl NotImplementedError, fs)"
proof -
  from assms have "length (np_unique (map Instrument (xml_table c))) > 1"
    using np_unique_many [of "map Instrument (xml_table c)"] by simp
  then have "dispatch ks c = ([Summary (length (xml_table c))], Inl NotImplementedError)"
    by (simp add: dispatch_def Let_def)
  then show ?thesis by (simp add: write_yaml_def write_lines_def)
qed

theorem several_instruments_witness:
  "card (Instrument ` set (xml_table mixed_call)) > 1 \<and>
   write_yaml [IdInt 1, IdInt 2] mixed_call Map.empty =
     ([Summary 2], Inl NotImplementedError, Map.empty)"
proof -
  have h: "card (Instrument ` set (xml_table mixed_call)) > 1"
    by (simp add: mixed_call_def row_def)
  from several_instruments [OF h, of "[IdInt 1, IdInt 2]" Map.empty] h show ?thesis
    by (simp add: mixed_call_def)
qed

section \<open>Observation numbers\<close>

text \<open>
  Claim C5.  When the conversion completes, the lines written that open a block,
  \<open>ObservationN:\<close>, are one per selected observation, in order, and \<open>N\<close> is one
  more than the position of the observation in the full list \<open>obs_results\<close>; these
  numbers are strictly increasing.
\<close>

theorem observation_numbers:
  assumes "set_iteration ks (map ObservationID (xml_table c))" and "completes ks c"
  shows "filter is_observation_line (written ks c) =
           map (\<lambda>p. observation_line (p + 1)) (i_observations (obs_results c)) \<and>
         length (i_observations (obs_results c)) = length (observations (obs_results c)) \<and>
         sorted_wrt (<) (map (\<lambda>p. p + 1) (i_observations (obs_results c))) \<and>
         (\<forall>j < length (observations (obs_results c)).
            i_observations (obs_results c) ! j < length (obs_results c) \<and>
            obs_results c ! (i_observations (obs_results c) ! j) = observations (obs_results c) ! j)"
proof -
  have "filter is_observation_line (written ks c) =
           map (\<lambda>p. observation_line (p + 1)) (i_observations (obs_results c))"
    using assms
  proof (cases rule: completes_cases)
    case (dichroic u sw lw)
    then show ?thesis
      by (simp only: observation_lines_blocks [OF observation_lines_dichroic])
  next
    case single
    then show ?thesis
      by (simp only: observation_lines_blocks [OF observation_lines_single])
  qed
  moreover have "sorted_wrt (<) (map (\<lambda>p. p + 1) (i_observations (obs_results c)))"
    using i_observations_increasing [of "obs_results c"] by (simp add: sorted_wrt_map)
  ultimately show ?thesis
    using selected_positions [of _ "obs_results c"] by (simp add: selected_lengths)
qed

theorem observation_numbers_witness:
  "set_iteration [IdInt 0, IdInt 1] (map ObservationID (xml_table niriss_call)) \<and>
   completes [IdInt 0, IdInt 1] niriss_call \<and>
   length (obs_results niriss_call) = 3 \<and>
   i_observations (obs_results niriss_call) = [0, 2] \<and>
   filter is_observation_line (written [IdInt 0, IdInt 1] niriss_call) =
     [''Observation1:'' @ newline, ''Observation3:'' @ newline]"
proof -
  have l: "length (obs_results niriss_call) = 3"
    by (simp add: niriss_call_def)
  have o: "map (\<lambda>p. observation_line (p + 1)) [0, 2] =
      [''Observation1:'' @ newline, ''Observation3:'' @ newline]"
    by (simp add: observation_line_def str_of_nat.simps digit_char_def)
  from observation_numbers [OF niriss_iteration(1) niriss_completes]
  have "filter is_observation_line (written [IdInt 0, IdInt 1] niriss_call) =
      map (\<lambda>p. observation_line (p + 1)) (i_observations (obs_results niriss_call))"
    by blast
  with o niriss_iteration(1) niriss_completes l niriss_i_observations show ?thesis
    by simp
qed

section \<open>Several filters in one observation\<close>

text \<open>
  When the note is printed, and what the grouping loop stores, in the branches that
  group.
\<close>

lemma notes_and_groups:
  assumes "Instrument ` set (xml_table c) = {u}"
    and "set_iteration ks (map ObservationID (xml_table c))"
    and "k \<in> ObservationID ` set (xml_table c)"
  shows "(u = ''NIRCAM'' \<or> u = ''WFSC'' \<longrightarrow>
            (MultipleFilters k \<in> set (fst (write_yaml ks c fs)) \<longleftrightarrow>
               1 < len_set (map ShortFilter (filter (\<lambda>e. ObservationID e = k) (xml_table c)))) \<and>
            (case group_dichroic ks (map ObservationID (xml_table c))
                    (map ShortFilter (xml_table c)) (map LongFilter (xml_table c)) ([], [], []) of
               (out, sw_filters, lw_filters) \<Rightarrow>
                 dict_get sw_filters k =
                   Inr (map ShortFilter (filter (\<lambda>e. ObservationID e = k) (xml_table c))) \<and>
                 dict_get lw_filters k =
                   Inr (map LongFilter (filter (\<lambda>e. ObservationID e = k) (xml_table c))))) \<and>
         (u = ''NIRISS'' \<longrightarrow>
            (MultipleFilters k \<in> set (fst (write_yaml ks c fs)) \<longleftrightarrow>
               1 < len_set (map PupilWheel (filter (\<lambda>e. ObservationID e = k) (xml_table c)))) \<and>
            (case group_single ks (map ObservationID (xml_table c))
                    (map PupilWheel (xml_table c)) ([], []) of
               (out, filters) \<Rightarrow>
                 dict_get filters k =
                   Inr (map PupilWheel (filter (\<lambda>e. ObservationID e = k) (xml_table c)))))"
proof -
  from assms(2) have d: "distinct ks" and s: "set ks = ObservationID ` set (xml_table c)"
    by (simp_all add: set_iteration_def)
  from assms(3) s have k: "k \<in> set ks" by simp
  obtain extra where e: "fst (write_yaml ks c fs) = fst (dispatch ks c) @ extra"
    "\<forall>k. MultipleFilters k \<notin> set extra"
    using write_yaml_prints by blast
  have r: "rows k (xml_table c) = filter (\<lambda>e. ObservationID e = k) (xml_table c)"
    by (simp add: rows_def)
  have dichroic: ?thesis if u: "u = ''NIRCAM'' \<or> u = ''WFSC''"
  proof -
    from u have n: "u \<noteq> ''NIRISS''" by auto
    have "MultipleFilters k \<in> set (fst (write_yaml ks c fs)) \<longleftrightarrow>
        1 < len_set (map ShortFilter (rows k (xml_table c)))"
      using e(2) k by (simp add: e(1) dispatch_notes_dichroic [OF assms(1) u d] note_in_notes_of)
    moreover have "group_dichroic ks (map ObservationID (xml_table c))
         (map ShortFilter (xml_table c)) (map LongFilter (xml_table c)) ([], [], []) =
       (notes_of ShortFilter ks (xml_table c), groups_of ShortFilter ks (xml_table c),
        groups_of LongFilter ks (xml_table c))"
      using d by (simp add: group_dichroic_eq notes_of_def groups_of_def)
    ultimately show ?thesis
      using n k by (simp add: dict_get_groups r)
  qed
  have single: ?thesis if u: "u = ''NIRISS''"
  proof -
    from assms(1) u have i: "Instrument ` set (xml_table c) = {''NIRISS''}" by simp
    have "MultipleFilters k \<in> set (fst (write_yaml ks c fs)) \<longleftrightarrow>
        1 < len_set (map PupilWheel (rows k (xml_table c)))"
      using e(2) k by (simp add: e(1) dispatch_single [OF i assms(2)] note_in_notes_of)
    moreover have "group_single ks (map ObservationID (xml_table c))
         (map PupilWheel (xml_table c)) ([], []) =
       (notes_of PupilWheel ks (xml_table c), groups_of PupilWheel ks (xml_table c))"
      using d by (simp add: group_single_eq notes_of_def groups_of_def)
    ultimately show ?thesis
      using u k by (simp add: dict_get_groups r)
  qed
  show ?thesis
  proof (cases "u = ''NIRCAM'' \<or> u = ''WFSC''")
    case True
    then show ?thesis by (rule dichroic)
  next
    case other: False
    show ?thesis
    proof (cases "u = ''NIRISS''")
      case True
      then show ?thesis by (rule single)
    next
      case False
      with other show ?thesis by simp
    qed
  qed
qed

text \<open>
  Claim C6, as amended.  For every observation id of the table, the note
  ``Multiple filters in observation'' is printed exactly when the short-wavelength
  filters (NIRCAM/WFSC branch) or the pupil-wheel filters (NIRISS branch) of its rows
  are not all the same; the long-wavelength filters are not tested.  In every case
  the group stored for the id, on each channel, is the full sequence of the filters of
  its rows, in row order.  The filters take no part in the control flow: a call that
  differs only in the filter columns of its table ends in the same way, by the same
  exception or by completion, and prints the same lines apart from the notes.  When
  the conversion completes, the block of each selected observation is rendered from
  the whole group looked up for it (\<open>single_lines\<close>, \<open>dichroic_lines\<close>).
\<close>

theorem inconsistent_filters:
  assumes "Instrument ` set (xml_table c) = {u}"
    and "set_iteration ks (map ObservationID (xml_table c))"
    and "k \<in> ObservationID ` set (xml_table c)"
  shows "(u = ''NIRCAM'' \<or> u = ''WFSC'' \<longrightarrow>
            (MultipleFilters k \<in> set (fst (write_yaml ks c fs)) \<longleftrightarrow>
               1 < len_set (map ShortFilter (filter (\<lambda>e. ObservationID e = k) (xml_table c)))) \<and>
            (case group_dichroic ks (map ObservationID (xml_table c))
                    (map ShortFilter (xml_table c)) (map LongFilter (xml_table c)) ([], [], []) of
               (out, sw_filters, lw_filters) \<Rightarrow>
                 dict_get sw_filters k =
                   Inr (map ShortFilter (filter (\<lambda>e. ObservationID e = k) (xml_table c))) \<and>
                 dict_get lw_filters k =
                   Inr (map LongFilter (filter (\<lambda>e. ObservationID e = k) (xml_table c))))) \<and>
         (u = ''NIRISS'' \<longrightarrow>
            (MultipleFilters k \<in> set (fst (write_yaml ks c fs)) \<longleftrightarrow>
               1 < len_set (map PupilWheel (filter (\<lambda>e. ObservationID e = k) (xml_table c)))) \<and>
            (case group_single ks (map ObservationID (xml_table c))
                    (map PupilWheel (xml_table c)) ([], []) of
               (out, filters) \<Rightarrow>
                 dict_get filters k =
                   Inr (map PupilWheel (filter (\<lambda>e. ObservationID e = k) (xml_table c))))) \<and>
         (\<forall>c'. same_but_filters c c' \<longrightarrow>
            fst (snd (write_yaml ks c' fs)) = fst (snd (write_yaml ks c fs)) \<and>
            filter (\<lambda>n. \<not> is_note n) (fst (write_yaml ks c' fs)) =
              filter (\<lambda>n. \<not> is_note n) (fst (write_yaml ks c fs))) \<and>
         (completes ks c \<longrightarrow>
            (u = ''NIRISS'' \<longrightarrow>
               written ks c =
                 preamble @ concat (map (single_lines c (single_cats c)) [0..<num_obs c])) \<and>
            (u = ''NIRCAM'' \<or> u = ''WFSC'' \<longrightarrow>
               (\<exists>sw lw. ps_cat_sw c = Some sw \<and> ps_cat_lw c = Some lw \<and>
                  written ks c =
                    preamble @ concat (map (dichroic_lines c sw lw) [0..<num_obs c]))))"
proof -
  note a = notes_and_groups [OF assms, of fs]
  have w: "completes ks c \<longrightarrow>
            (u = ''NIRISS'' \<longrightarrow>
               written ks c =
                 preamble @ concat (map (single_lines c (single_cats c)) [0..<num_obs c])) \<and>
            (u = ''NIRCAM'' \<or> u = ''WFSC'' \<longrightarrow>
               (\<exists>sw lw. ps_cat_sw c = Some sw \<and> ps_cat_lw c = Some lw \<and>
                  written ks c =
                    preamble @ concat (map (dichroic_lines c sw lw) [0..<num_obs c])))"
    by (rule impI) (rule written_full_groups [OF assms(1,2)])
  have b: "\<forall>c'. same_but_filters c c' \<longrightarrow>
            fst (snd (write_yaml ks c' fs)) = fst (snd (write_yaml ks c fs)) \<and>
            filter (\<lambda>n. \<not> is_note n) (fst (write_yaml ks c' fs)) =
              filter (\<lambda>n. \<not> is_note n) (fst (write_yaml ks c fs))"
  proof (intro allI impI)
    fix c'
    assume "same_but_filters c c'"
    with assms(2) show "fst (snd (write_yaml ks c' fs)) = fst (snd (write_yaml ks c fs)) \<and>
            filter (\<lambda>n. \<not> is_note n) (fst (write_yaml ks c' fs)) =
              filter (\<lambda>n. \<not> is_note n) (fst (write_yaml ks c fs))"
      by (rule control_flow_filters)
  qed
  show ?thesis
    by (rule conjI [OF conjunct1 [OF a] conjI [OF conjunct2 [OF a] conjI [OF b w]]])
qed

theorem inconsistent_filters_witness:
  "Instrument ` set (xml_table niriss_call) = {''NIRISS''} \<and>
   set_iteration [IdInt 0, IdInt 1] (map ObservationID (xml_table niriss_call)) \<and>
   IdInt 0 \<in> ObservationID ` set (xml_table niriss_call) \<and>
   1 < len_set (map PupilWheel (filter (\<lambda>e. ObservationID e = IdInt 0) (xml_table niriss_call))) \<and>
   MultipleFilters (IdInt 0) \<in> set (fst (write_yaml [IdInt 0, IdInt 1] niriss_call Map.empty)) \<and>
   same_but_filters niriss_call niriss_uniform \<and>
   fst (snd (write_yaml [IdInt 0, IdInt 1] niriss_uniform Map.empty)) =
     fst (snd (write_yaml [IdInt 0, IdInt 1] niriss_call Map.empty)) \<and>
   fst (snd (write_yaml [IdInt 0, IdInt 1] niriss_call Map.empty)) = Inr ()"
proof -
  have k: "IdInt 0 \<in> ObservationID ` set (xml_table niriss_call)"
    by (simp add: niriss_call_def row_def)
  have l: "1 < len_set (map PupilWheel (filter (\<lambda>e. ObservationID e = IdInt 0) (xml_table niriss_call)))"
    by (simp add: len_set_def niriss_call_def row_def)
  have s: "same_but_filters niriss_call niriss_uniform"
    by (simp add: same_but_filters_def niriss_uniform_def) (simp add: niriss_call_def row_def)
  have r: "fst (snd (write_yaml [IdInt 0, IdInt 1] niriss_call Map.empty)) = Inr ()"
    using niriss_completes
    by (simp add: write_yaml_parts completes_def split: sum.splits)
  note t = inconsistent_filters [OF niriss_instrument niriss_iteration(1) k, of Map.empty]
  note n = t [THEN conjunct2, THEN conjunct1, THEN mp, OF refl, THEN conjunct1]
  note b = t [THEN conjunct2, THEN conjunct2, THEN conjunct1, THEN spec, THEN mp, OF s,
      THEN conjunct1]
  from n l have m:
    "MultipleFilters (IdInt 0) \<in> set (fst (write_yaml [IdInt 0, IdInt 1] niriss_call Map.empty))"
    by simp
  show ?thesis
    by (intro conjI niriss_instrument niriss_iteration(1) k l m s b r)
qed

text \<open>
  Claim C6 as stated fails on a NIRCAM observation whose two exposures share the
  short-wavelength filter and differ in the long-wavelength filter: the conversion
  completes and no note is printed.  It also fails on an FGS observation whose two
  exposures differ in the filter: no branch groups the table of an FGS proposal, no
  note is printed and the conversion ends in \<open>UnboundLocalError\<close>.
\<close>

theorem inconsistent_filters_counterexample:
  "1 < len_set (map LongFilter (filter (\<lambda>e. ObservationID e = IdInt 1) (xml_table nircam_call))) \<and>
   write_yaml [IdInt 1] nircam_call Map.empty =
     ([Summary 2, Success 1 ''out.yaml''], Inr (),
      [''out.yaml'' \<mapsto> concat (written [IdInt 1] nircam_call)]) \<and>
   MultipleFilters (IdInt 1) \<notin> set (fst (write_yaml [IdInt 1] nircam_call Map.empty)) \<and>
   1 < len_set (map PupilWheel (filter (\<lambda>e. ObservationID e = IdInt 0) (xml_table fgs_two_filters))) \<and>
   write_yaml [IdInt 0] fgs_two_filters Map.empty =
     ([Summary 2], Inl UnboundLocalError, Map.empty)"
proof -
  have a: "all_equal (dichroic_lengths nircam_call [''sw.cat''] [''lw.cat''])"
    using all_equal_replicate [of 7 1] by (simp add: nircam_lengths numeral_eq_Suc)
  have n: "notes_of ShortFilter [IdInt 1] (xml_table nircam_call) = []"
    by (simp add: notes_of_def rows_def nircam_rows) (simp add: len_set_def nircam_call_def row_def)
  have l: "1 < len_set (map LongFilter (filter (\<lambda>e. ObservationID e = IdInt 1) (xml_table nircam_call)))"
    by (simp add: nircam_rows) (simp add: len_set_def nircam_call_def row_def)
  have t: "length (xml_table nircam_call) = 2" "yaml_file nircam_call = ''out.yaml''"
    by (simp_all add: nircam_call_def)
  note w = write_lines_dichroic [OF nircam_instrument _ nircam_iteration nircam_catalogs]
  from a nircam_keys have "write_yaml [IdInt 1] nircam_call Map.empty =
     ([Summary 2, Success 1 ''out.yaml''], Inr (),
      [''out.yaml'' \<mapsto> concat (written [IdInt 1] nircam_call)])"
    by (simp add: write_yaml_def written_def w n t nircam_num_obs [unfolded num_obs_def])
  moreover have i: "Instrument ` set (xml_table fgs_two_filters) = {''FGS''}"
    by (simp add: fgs_two_filters_def row_def)
  moreover have "1 < len_set (map PupilWheel
      (filter (\<lambda>e. ObservationID e = IdInt 0) (xml_table fgs_two_filters)))"
    by (simp add: len_set_def fgs_two_filters_def row_def)
  moreover have "length (xml_table fgs_two_filters) = 2"
    by (simp add: fgs_two_filters_def)
  ultimately show ?thesis
    using l fgs_unbound [OF i, of "[IdInt 0]" Map.empty] by simp
qed

section \<open>One catalog for all observations\<close>

text \<open>
  What the branch for NIRISS does with exactly one catalog path: the catalog list
  becomes that path repeated once per selected observation, and when the conversion
  completes, the block of every selected observation holds, once per filter of its
  group and at least once, the \<open>PointSourceCatalog\<close> line of that path, and no
  other \<open>PointSourceCatalog\<close> line.
\<close>

lemma niriss_catalog_broadcast:
  assumes "Instrument ` set (xml_table c) = {''NIRISS''}"
    and "set_iteration ks (map ObservationID (xml_table c))"
    and "catalog_list (catalog_files c) = [cat]"
  shows "single_cats c = replicate (num_obs c) cat"
    and "completes ks c \<Longrightarrow>
         written ks c =
           preamble @ concat (map (single_lines c (replicate (num_obs c) cat)) [0..<num_obs c]) \<and>
         (\<forall>i < num_obs c.
            rows (IdInt (int i)) (xml_table c) \<noteq> [] \<and>
            filter is_catalog_line (single_lines c (replicate (num_obs c) cat) i) =
              replicate (length (rows (IdInt (int i)) (xml_table c)))
                (kv ''  '' ''PointSourceCatalog'' cat))"
proof -
  show cats: "single_cats c = replicate (num_obs c) cat"
    by (simp add: single_cats_def broadcast_def assms(3))
  assume "completes ks c"
  with assms(2) show "written ks c =
           preamble @ concat (map (single_lines c (replicate (num_obs c) cat)) [0..<num_obs c]) \<and>
         (\<forall>i < num_obs c.
            rows (IdInt (int i)) (xml_table c) \<noteq> [] \<and>
            filter is_catalog_line (single_lines c (replicate (num_obs c) cat) i) =
              replicate (length (rows (IdInt (int i)) (xml_table c)))
                (kv ''  '' ''PointSourceCatalog'' cat))"
  proof (cases rule: completes_cases)
    case (dichroic u sw lw)
    with assms(1) show ?thesis by auto
  next
    case single
    then show ?thesis
      by (simp add: cats catalog_lines_single rows_nonempty)
  qed
qed

text \<open>
  Claim C8.  The claim promises the same for the whole single-channel family, FGS
  included.  The code does not do it for FGS: the repetition of line 163 stands in the
  branch of NIRISS alone.  With one catalog path and three selected FGS observations
  the dispatch binds no catalog list, \<open>write_yaml\<close> raises \<open>UnboundLocalError\<close> and
  no block is rendered.
\<close>

theorem fgs_single_catalog:
  "Instrument ` set (xml_table fgs_three_observations) = {''FGS''} \<and>
   catalog_list (catalog_files fgs_three_observations) = [''cat.list''] \<and>
   num_obs fgs_three_observations = 3 \<and>
   snd (dispatch [IdInt 0, IdInt 1, IdInt 2] fgs_three_observations) = Inr (NoLocals, None) \<and>
   write_yaml [IdInt 0, IdInt 1, IdInt 2] fgs_three_observations Map.empty =
     ([Summary 3], Inl UnboundLocalError, Map.empty)"
proof -
  have c: "catalog_list (catalog_files fgs_three_observations) = [''cat.list'']"
    by (simp add: catalog_list_def fgs_three_observations_def)
  from fgs_unbound [OF fgs_three_instrument] fgs_dispatch [OF fgs_three_instrument]
    fgs_three_instrument c fgs_three_num_obs
  show ?thesis
    by (simp add: fgs_three_table)
qed

section \<open>Determinism\<close>

text \<open>
  Claim C9.  The only choice that Python leaves open in \<open>write_yaml\<close> is the order in
  which the set of observation ids is visited.  Whatever that order, the same call on
  the same files ends in the same way, by the same exception or with the same text in
  the output file, and leaves the same files.
\<close>

theorem conversion_deterministic:
  assumes "set_iteration ks (map ObservationID (xml_table c))"
    and "set_iteration ks' (map ObservationID (xml_table c))"
  shows "snd (write_yaml ks c fs) = snd (write_yaml ks' c fs)"
proof -
  have "snd (write_yaml k c fs) =
      (case snd (write_lines k c) of
         Inl e \<Rightarrow> (Inl e, fs)
       | Inr write \<Rightarrow> (Inr (), fs(yaml_file c \<mapsto> concat write)))" for k
    by (cases "write_lines k c") (simp add: write_yaml_def split: sum.splits)
  with write_lines_order [OF assms] show ?thesis by simp
qed

theorem conversion_deterministic_witness:
  "set_iteration [IdInt 0, IdInt 1] (map ObservationID (xml_table niriss_call)) \<and>
   set_iteration [IdInt 1, IdInt 0] (map ObservationID (xml_table niriss_call)) \<and>
   snd (write_yaml [IdInt 0, IdInt 1] niriss_call Map.empty) =
   snd (write_yaml [IdInt 1, IdInt 0] niriss_call Map.empty) \<and>
   completes [IdInt 0, IdInt 1] niriss_call"
  using conversion_deterministic [OF niriss_iteration, of Map.empty] niriss_iteration
    niriss_completes
  by simp

section \<open>The NIRCAM/WFSC branch without its catalog lists\<close>

text \<open>
  Claim C10.  For a table whose only instrument is NIRCAM or WFSC, a call that leaves
  \<open>ps_cat_sw\<close> or \<open>ps_cat_lw\<close> at \<open>None\<close> raises \<open>TypeError\<close> where the lengths
  are taken, in the dispatch, before the length check; the files are unchanged.
\<close>

theorem dichroic_without_catalogs:
  assumes "Instrument ` set (xml_table c) = {u}"
    and "u = ''NIRCAM'' \<or> u = ''WFSC''"
    and "ps_cat_sw c = None \<or> ps_cat_lw c = None"
  shows "snd (dispatch ks c) = Inl TypeError \<and> snd (write_yaml ks c fs) = (Inl TypeError, fs)"
proof -
  from assms have d: "snd (dispatch ks c) = Inl TypeError"
    by (rule dispatch_dichroic_none)
  then show ?thesis
    by (cases "dispatch ks c") (simp add: write_yaml_def write_lines_def)
qed

theorem dichroic_without_catalogs_witness:
  "Instrument ` set (xml_table nircam_default_catalogs) = {''NIRCAM''} \<and>
   ps_cat_sw nircam_default_catalogs = None \<and>
   snd (write_yaml [IdInt 1] nircam_default_catalogs Map.empty) = (Inl TypeError, Map.empty)"
proof -
  have h1: "Instrument ` set (xml_table nircam_default_catalogs) = {''NIRCAM''}"
    by (simp add: nircam_default_catalogs_def nircam_call_def row_def)
  have h2: "ps_cat_sw nircam_default_catalogs = None \<or> ps_cat_lw nircam_default_catalogs = None"
    by (simp add: nircam_default_catalogs_def)
  from dichroic_without_catalogs [OF h1 _ h2, of "[IdInt 1]" Map.empty] h1 show ?thesis
    by (simp add: nircam_default_catalogs_def)
qed


end
